theory Spec2Isabelle
  imports Complex_Main "HOL-Library.Sublist"
begin

section \<open>JavaScript values read by the marker pipeline of HazardMap.js\<close>

text \<open>
  The records handed to \<open>createUnifiedMarkerData\<close> are decoded JSON, so a field
  holds a number, a string, a boolean, \<open>null\<close>, a nested array or object, or is
  missing (\<open>undefined\<close>). A finite number is modelled by its exact rational value
  (every IEEE double is a rational; \<open>+0\<close> and \<open>-0\<close>, which no operation used here
  tells apart, are both \<open>Fin 0\<close>). A nested array or object is represented by what
  its conversion to a string yields, the only thing the code ever observes of it
  besides its being truthy: \<open>Some s\<close> when the conversion gives the string \<open>s\<close>,
  \<open>None\<close> when it throws, as it does for an object with an own property
  \<open>toString\<close> (JSON such as \<open>{"toString": 1}\<close>; the property is not callable and
  the inherited \<open>valueOf\<close> returns the object) and for an array that holds one.
  Strings are sequences of UTF-8 bytes.
\<close>

datatype jsnum = NaN | PosInf | NegInf | Fin rat

datatype jsval =
  JUndefined | JNull | JBool bool | JNum jsnum | JStr string | JObj "string option"

datatype error = TypeError | RangeError

text \<open>
  Services of the JavaScript runtime whose results are not fixed by the source text:
  the clock (\<open>Date.now()\<close>), \<open>Date.parse\<close> on strings (\<open>None\<close> is the
  invalid date, time value \<open>NaN\<close>), the rounding of the exact value of a decimal
  literal to a double inside \<open>parseFloat\<close>, and \<open>Number::toString\<close>, which
  \<open>toFixed\<close> falls back to for magnitudes of \<open>10^21\<close> and more. The loop over
  the reports is synchronous and short; every \<open>Date.now()\<close> of one call is taken
  to return the same reading \<open>now\<close>.
\<close>

record js_env =
  now :: int
  date_parse :: "string \<Rightarrow> int option"
  to_double :: "rat \<Rightarrow> jsnum"
  number_to_string :: "rat \<Rightarrow> string"

subsection \<open>Truthiness, \<open>||\<close>, comparison\<close>

fun truthy :: "jsval \<Rightarrow> bool" where
  "truthy JUndefined = False"
| "truthy JNull = False"
| "truthy (JBool b) = b"
| "truthy (JNum NaN) = False"
| "truthy (JNum (Fin q)) = (q \<noteq> 0)"
| "truthy (JNum _) = True"
| "truthy (JStr s) = (s \<noteq> [])"
| "truthy (JObj _) = True"

definition js_or :: "jsval \<Rightarrow> jsval \<Rightarrow> jsval" where
  "js_or a b = (if truthy a then a else b)"

definition isNaN :: "jsnum \<Rightarrow> bool" where
  "isNaN x = (x = NaN)"

fun js_lt :: "jsnum \<Rightarrow> jsnum \<Rightarrow> bool" where
  "js_lt NaN _ = False"
| "js_lt _ NaN = False"
| "js_lt _ NegInf = False"
| "js_lt NegInf _ = True"
| "js_lt PosInf _ = False"
| "js_lt _ PosInf = True"
| "js_lt (Fin a) (Fin b) = (a < b)"

definition js_gt :: "jsnum \<Rightarrow> jsnum \<Rightarrow> bool" where
  "js_gt x y = js_lt y x"


subsection \<open>\<open>parseFloat\<close>\<close>

text \<open>
  \<open>parseFloat(v)\<close> converts \<open>v\<close> to a string, which throws a \<open>TypeError\<close>
  for an object that has no string conversion, strips leading white space and line
  terminators and reads the longest prefix that is a \<open>StrDecimalLiteral\<close>: an
  optional sign, then \<open>Infinity\<close> or digits with an optional fraction and an
  optional exponent. No such prefix gives \<open>NaN\<close>. A number converts to its shortest
  round-trip literal, so \<open>parseFloat\<close> maps a number to itself.
\<close>

definition is_digit :: "char \<Rightarrow> bool" where
  "is_digit c = (c \<in> set ''0123456789'')"

definition digit_val :: "char \<Rightarrow> int" where
  "digit_val c = of_char c - 48"

text \<open>
  White space and line terminators of ECMAScript: the ASCII ones (TAB, LF, VT, FF, CR,
  SP) are single bytes; U+00A0, U+1680, U+2000 to U+200A, U+2028, U+2029, U+202F,
  U+205F, U+3000 and U+FEFF are two or three bytes in UTF-8. \<open>wide_space\<close> gives
  the number of bytes of such a character at the head of a string, 0 when there is none.
\<close>

definition is_space :: "char \<Rightarrow> bool" where
  "is_space c = (c \<in> {CHR 0x09, CHR 0x0A, CHR 0x0B, CHR 0x0C, CHR 0x0D, CHR '' ''})"

definition wide_space :: "string \<Rightarrow> nat" where
  "wide_space s =
     (if take 2 s = [CHR 0xC2, CHR 0xA0] then 2
      else if take 3 s \<in> set
                [[CHR 0xE1, CHR 0x9A, CHR 0x80],
                 [CHR 0xE2, CHR 0x80, CHR 0x80], [CHR 0xE2, CHR 0x80, CHR 0x81],
                 [CHR 0xE2, CHR 0x80, CHR 0x82], [CHR 0xE2, CHR 0x80, CHR 0x83],
                 [CHR 0xE2, CHR 0x80, CHR 0x84], [CHR 0xE2, CHR 0x80, CHR 0x85],
                 [CHR 0xE2, CHR 0x80, CHR 0x86], [CHR 0xE2, CHR 0x80, CHR 0x87],
                 [CHR 0xE2, CHR 0x80, CHR 0x88], [CHR 0xE2, CHR 0x80, CHR 0x89],
                 [CHR 0xE2, CHR 0x80, CHR 0x8A],
                 [CHR 0xE2, CHR 0x80, CHR 0xA8], [CHR 0xE2, CHR 0x80, CHR 0xA9],
                 [CHR 0xE2, CHR 0x80, CHR 0xAF], [CHR 0xE2, CHR 0x81, CHR 0x9F],
                 [CHR 0xE3, CHR 0x80, CHR 0x80], [CHR 0xEF, CHR 0xBB, CHR 0xBF]]
      then 3 else 0)"

fun trim_start :: "string \<Rightarrow> string" where
  "trim_start [] = []"
| "trim_start (c # s) =
     (if is_space c then trim_start s
      else if wide_space (c # s) = 0 then c # s
      else trim_start (drop (wide_space (c # s) - 1) s))"

declare trim_start.simps [simp del]

definition digits_val :: "string \<Rightarrow> int" where
  "digits_val ds = foldl (\<lambda>n c. 10 * n + digit_val c) 0 ds"

definition pow10 :: "int \<Rightarrow> rat" where
  "pow10 k = (if 0 \<le> k then 10 ^ nat k else 1 / 10 ^ nat (- k))"

text \<open>The exponent part \<open>e\<close>, \<open>E\<close> with a signed integer; 0 when there is none.\<close>

definition exponent_part :: "string \<Rightarrow> int" where
  "exponent_part s =
     (case s of
        [] \<Rightarrow> 0
      | c # t \<Rightarrow>
          if c = CHR ''e'' \<or> c = CHR ''E'' then
            (case t of
               [] \<Rightarrow> 0
             | d # u \<Rightarrow>
                 if d = CHR ''-'' then - digits_val (takeWhile is_digit u)
                 else if d = CHR ''+'' then digits_val (takeWhile is_digit u)
                 else digits_val (takeWhile is_digit t))
          else 0)"

datatype num_literal = LitInfinity | LitValue rat

definition unsigned_literal :: "string \<Rightarrow> num_literal option" where
  "unsigned_literal s =
     (if take 8 s = ''Infinity'' then Some LitInfinity
      else
        let ip = takeWhile is_digit s; r = dropWhile is_digit s;
            dot = (r \<noteq> [] \<and> hd r = CHR ''.'');
            fp = (if dot then takeWhile is_digit (tl r) else []);
            rest = (if dot then dropWhile is_digit (tl r) else r)
        in if ip = [] \<and> fp = [] then None
           else Some (LitValue (of_int (digits_val (ip @ fp))
                        * pow10 (exponent_part rest - int (length fp)))))"

definition parse_literal :: "js_env \<Rightarrow> string \<Rightarrow> jsnum" where
  "parse_literal env s =
     (let t = trim_start s;
          neg = (t \<noteq> [] \<and> hd t = CHR ''-'');
          u = (if t \<noteq> [] \<and> (hd t = CHR ''-'' \<or> hd t = CHR ''+'') then tl t else t)
      in case unsigned_literal u of
           None \<Rightarrow> NaN
         | Some LitInfinity \<Rightarrow> (if neg then NegInf else PosInf)
         | Some (LitValue q) \<Rightarrow> to_double env (if neg then - q else q))"

fun parseFloat :: "js_env \<Rightarrow> jsval \<Rightarrow> error + jsnum" where
  "parseFloat env (JNum x) = Inr x"
| "parseFloat env (JStr s) = Inr (parse_literal env s)"
| "parseFloat env (JObj (Some s)) = Inr (parse_literal env s)"
| "parseFloat env (JObj None) = Inl TypeError"
| "parseFloat env _ = Inr NaN"

subsection \<open>\<open>Number.prototype.toFixed\<close>\<close>

text \<open>
  \<open>x.toFixed(f)\<close>: a receiver that is not a number has no such method
  (\<open>TypeError\<close>); \<open>f\<close> outside 0..100 is a \<open>RangeError\<close>; a non-finite number
  prints as its name. Otherwise the sign is split off (\<open>-\<close> exactly when
  \<open>x < 0\<close>), the magnitude is scaled by \<open>10^f\<close> and rounded to the nearest
  integer \<open>n\<close>, the larger one on a tie, and the digits of \<open>n\<close> are printed with
  the point before the last \<open>f\<close> of them, padded with zeros to \<open>f + 1\<close> digits.
\<close>

definition digit_char :: "int \<Rightarrow> char" where
  "digit_char d = ''0123456789'' ! nat d"

function digits_of :: "int \<Rightarrow> string" where
  "digits_of n =
     (if n < 10 then [digit_char n]
      else digits_of (n div 10) @ [digit_char (n mod 10)])"
  by pat_completeness auto
termination
  by (relation "measure nat") auto

declare digits_of.simps [simp del]

definition fixed_digits :: "rat \<Rightarrow> nat \<Rightarrow> string" where
  "fixed_digits a f =
     (let n = \<lfloor>a * 10 ^ f + 1 / 2\<rfloor>;
          m = digits_of n;
          m' = (if length m \<le> f then replicate (f + 1 - length m) CHR ''0'' @ m else m)
      in if f = 0 then m
         else take (length m' - f) m' @ ''.'' @ drop (length m' - f) m')"

definition toFixed :: "js_env \<Rightarrow> jsval \<Rightarrow> int \<Rightarrow> error + string" where
  "toFixed env v f =
     (case v of
        JNum x \<Rightarrow>
          if f < 0 \<or> 100 < f then Inl RangeError
          else (case x of
                  NaN \<Rightarrow> Inr ''NaN''
                | PosInf \<Rightarrow> Inr ''Infinity''
                | NegInf \<Rightarrow> Inr ''-Infinity''
                | Fin q \<Rightarrow>
                    let s = (if q < 0 then ''-'' else '''');
                        a = \<bar>q\<bar>
                    in if 10 ^ 21 \<le> a then Inr (s @ number_to_string env a)
                       else Inr (s @ fixed_digits a (nat f)))
      | _ \<Rightarrow> Inl TypeError)"

subsection \<open>\<open>getCoordinateKey\<close>\<close>

text \<open>
  The template literal evaluates \<open>lat.toFixed(precision)\<close>, then
  \<open>lon.toFixed(precision)\<close>, and joins them with an underscore. The default
  \<open>precision = 3\<close> of the source is what every caller passes (\<open>GRID_PRECISION\<close>).
\<close>

definition getCoordinateKey :: "js_env \<Rightarrow> jsval \<Rightarrow> jsval \<Rightarrow> int \<Rightarrow> error + string" where
  "getCoordinateKey env lat lon precision =
     (case toFixed env lat precision of
        Inl e \<Rightarrow> Inl e
      | Inr a \<Rightarrow>
          (case toFixed env lon precision of
             Inl e \<Rightarrow> Inl e
           | Inr b \<Rightarrow> Inr (a @ ''_'' @ b)))"

section \<open>The data model\<close>

text \<open>
  A hazard event and a user report as \<open>createUnifiedMarkerData\<close> reads them; a
  field that is absent from the object reads as \<open>JUndefined\<close>. The source field
  names \<open>id\<close>, \<open>lat\<close>, \<open>lon\<close> and \<open>confidence\<close> carry the prefix of their
  record here, since the unified marker has fields of the same names. An element of
  an input array is \<open>Some\<close> record, or \<open>None\<close> where the array holds \<open>null\<close> or
  \<open>undefined\<close>, of which no property can be read. (An element that is a number, a
  string or a boolean reads every field as \<open>undefined\<close>, like a record without
  fields.)
\<close>

record hazard_event =
  event_id :: jsval
  centroid_lat :: jsval
  centroid_lon :: jsval
  event_confidence :: jsval

record user_report =
  report_id :: jsval
  report_lat :: jsval
  report_lon :: jsval
  isUserSubmission :: jsval
  report_confidence :: jsval
  timestamp :: jsval

datatype marker_type = Hazard_event | User_report

datatype source_record = Event hazard_event | Report user_report

record marker =
  type :: marker_type
  lat :: jsval
  lon :: jsval
  data :: source_record
  priority :: int
  confidence :: jsval

subsection \<open>The \<open>Map\<close> from grid keys to markers\<close>

text \<open>
  A JavaScript \<open>Map\<close> iterates in the order in which its keys were first inserted;
  \<open>set\<close> on a key that is present replaces the value and keeps the key's place.
\<close>

type_synonym coordinate_groups = "(string \<times> marker) list"

definition Map_has :: "coordinate_groups \<Rightarrow> string \<Rightarrow> bool" where
  "Map_has g k = (map_of g k \<noteq> None)"

fun Map_set :: "coordinate_groups \<Rightarrow> string \<Rightarrow> marker \<Rightarrow> coordinate_groups" where
  "Map_set [] k v = [(k, v)]"
| "Map_set ((k', v') # g) k v =
     (if k' = k then (k, v) # g else (k', v') # Map_set g k v)"

definition Map_values :: "coordinate_groups \<Rightarrow> marker list" where
  "Map_values g = map snd g"

subsection \<open>Dates\<close>

text \<open>
  \<open>new Date(v)\<close> for one argument: a string goes to \<open>Date.parse\<close>; an array or
  object is converted to a primitive first, which gives its string or throws a
  \<open>TypeError\<close>; anything else goes to \<open>ToNumber\<close> and \<open>TimeClip\<close>, which
  truncates towards zero and rejects magnitudes beyond \<open>8.64 * 10^15\<close> ms. The
  result is the time value, \<open>None\<close> for the invalid date. Comparing two dates with
  \<open>>\<close> compares their time values and is false when either is invalid.
\<close>

definition TimeClip :: "jsnum \<Rightarrow> int option" where
  "TimeClip x =
     (case x of
        Fin q \<Rightarrow>
          if 8640000000000000 < \<bar>q\<bar> then None
          else Some (if 0 \<le> q then \<lfloor>q\<rfloor> else \<lceil>q\<rceil>)
      | _ \<Rightarrow> None)"

fun new_Date :: "js_env \<Rightarrow> jsval \<Rightarrow> error + int option" where
  "new_Date env JUndefined = Inr None"
| "new_Date env JNull = Inr (Some 0)"
| "new_Date env (JBool b) = Inr (Some (if b then 1 else 0))"
| "new_Date env (JNum x) = Inr (TimeClip x)"
| "new_Date env (JStr s) = Inr (date_parse env s)"
| "new_Date env (JObj (Some s)) = Inr (date_parse env s)"
| "new_Date env (JObj None) = Inl TypeError"

fun date_gt :: "int option \<Rightarrow> int option \<Rightarrow> bool" where
  "date_gt (Some a) (Some b) = (b < a)"
| "date_gt _ _ = False"

section \<open>\<open>createUnifiedMarkerData\<close>\<close>

definition GRID_PRECISION :: int where
  "GRID_PRECISION = 3"

text \<open>The guard that skips a record, in the order of the source's disjunction.\<close>

definition invalid_coordinates :: "jsnum \<Rightarrow> jsnum \<Rightarrow> bool" where
  "invalid_coordinates la lo =
     (\<not> truthy (JNum la) \<or> \<not> truthy (JNum lo) \<or> isNaN la \<or> isNaN lo
      \<or> js_lt la (Fin (- 90)) \<or> js_gt la (Fin 90)
      \<or> js_lt lo (Fin (- 180)) \<or> js_gt lo (Fin 180))"

text \<open>
  The three object literals the function stores in the map. The literal \<open>0.3\<close>
  stands for the double nearest to three tenths.
\<close>

definition hazard_event_marker :: "jsnum \<Rightarrow> jsnum \<Rightarrow> hazard_event \<Rightarrow> marker" where
  "hazard_event_marker la lo event =
     \<lparr>type = Hazard_event, lat = JNum la, lon = JNum lo, data = Event event,
      priority = 10,
      confidence = js_or (event_confidence event) (JNum (Fin (1 / 2)))\<rparr>"

definition user_report_marker :: "jsnum \<Rightarrow> jsnum \<Rightarrow> user_report \<Rightarrow> marker" where
  "user_report_marker la lo report =
     \<lparr>type = User_report, lat = JNum la, lon = JNum lo, data = Report report,
      priority = (if truthy (isUserSubmission report) then 8 else 5),
      confidence = js_or (report_confidence report) (JNum (Fin (3 / 10)))\<rparr>"

definition recent_submission_marker :: "user_report \<Rightarrow> marker" where
  "recent_submission_marker report =
     \<lparr>type = User_report, lat = report_lat report, lon = report_lon report,
      data = Report report, priority = 9,
      confidence = js_or (report_confidence report) (JNum (Fin (3 / 10)))\<rparr>"

text \<open>
  The body of the first \<open>forEach\<close>: one element of \<open>hazardEvents\<close> against the
  map so far. Reading \<open>event.centroid_lat\<close> of \<open>null\<close> or \<open>undefined\<close> throws;
  both \<open>parseFloat\<close> calls come before the guard and stand outside any \<open>try\<close>.
\<close>

definition process_hazard_event ::
  "js_env \<Rightarrow> coordinate_groups \<Rightarrow> hazard_event option \<Rightarrow> error + coordinate_groups" where
  "process_hazard_event env groups element =
     (case element of
        None \<Rightarrow> Inl TypeError
      | Some event \<Rightarrow>
          (case parseFloat env (centroid_lat event) of
             Inl e \<Rightarrow> Inl e
           | Inr la \<Rightarrow>
               (case parseFloat env (centroid_lon event) of
                  Inl e \<Rightarrow> Inl e
                | Inr lo \<Rightarrow>
                    if invalid_coordinates la lo then Inr groups
                    else
                      (case getCoordinateKey env (JNum la) (JNum lo) GRID_PRECISION of
                         Inl e \<Rightarrow> Inl e
                       | Inr key \<Rightarrow>
                           if \<not> Map_has groups key
                           then Inr (Map_set groups key (hazard_event_marker la lo event))
                           else Inr groups))))"

text \<open>
  The \<open>try\<close> block of the second loop: the two dates, the comparison and the
  replacement, which stores \<open>report.lat\<close> and \<open>report.lon\<close> as they are.
\<close>

definition replace_if_recent ::
  "js_env \<Rightarrow> coordinate_groups \<Rightarrow> string \<Rightarrow> user_report \<Rightarrow> error + coordinate_groups" where
  "replace_if_recent env groups key report =
     (case new_Date env (timestamp report) of
        Inl e \<Rightarrow> Inl e
      | Inr reportTime \<Rightarrow>
          (case new_Date env (JNum (Fin (of_int (now env - 30 * 60 * 1000)))) of
             Inl e \<Rightarrow> Inl e
           | Inr thirtyMinutesAgo \<Rightarrow>
               if date_gt reportTime thirtyMinutesAgo
               then Inr (Map_set groups key (recent_submission_marker report))
               else Inr groups))"

text \<open>
  The body of the second \<open>forEach\<close>. What the \<open>try\<close> block throws is caught,
  logged and dropped, and the map stays as it was.
\<close>

definition process_user_report ::
  "js_env \<Rightarrow> coordinate_groups \<Rightarrow> user_report option \<Rightarrow> error + coordinate_groups" where
  "process_user_report env groups element =
     (case element of
        None \<Rightarrow> Inl TypeError
      | Some report \<Rightarrow>
          (case parseFloat env (report_lat report) of
             Inl e \<Rightarrow> Inl e
           | Inr la \<Rightarrow>
               (case parseFloat env (report_lon report) of
                  Inl e \<Rightarrow> Inl e
                | Inr lo \<Rightarrow>
                    if invalid_coordinates la lo then Inr groups
                    else
                      (case getCoordinateKey env (JNum la) (JNum lo) GRID_PRECISION of
                         Inl e \<Rightarrow> Inl e
                       | Inr key \<Rightarrow>
                           if \<not> Map_has groups key
                           then Inr (Map_set groups key (user_report_marker la lo report))
                           else if truthy (isUserSubmission report) then
                             (case replace_if_recent env groups key report of
                                Inl e \<Rightarrow> Inr groups
                              | Inr groups' \<Rightarrow> Inr groups')
                           else Inr groups))))"

text \<open>\<open>forEach\<close> with a body that may throw: the first error ends the loop.\<close>

fun forEach :: "('s \<Rightarrow> 'a \<Rightarrow> error + 's) \<Rightarrow> 'a list \<Rightarrow> 's \<Rightarrow> error + 's" where
  "forEach f [] s = Inr s"
| "forEach f (x # xs) s = (case f s x of Inl e \<Rightarrow> Inl e | Inr s' \<Rightarrow> forEach f xs s')"

text \<open>
  \<open>sort((a, b) => b.priority - a.priority)\<close>: descending priority; the sort of an
  array is stable (ECMAScript 2019), as insertion by key is.
\<close>

definition sort_by_priority :: "marker list \<Rightarrow> marker list" where
  "sort_by_priority ms = sort_key (\<lambda>m. - priority m) ms"

definition createUnifiedMarkerData ::
  "js_env \<Rightarrow> hazard_event option list \<Rightarrow> user_report option list \<Rightarrow> error + marker list" where
  "createUnifiedMarkerData env hazardEvents userReports =
     (case forEach (process_hazard_event env) hazardEvents [] of
        Inl e \<Rightarrow> Inl e
      | Inr g1 \<Rightarrow>
          (case forEach (process_user_report env) userReports g1 of
             Inl e \<Rightarrow> Inl e
           | Inr coordinateGroups \<Rightarrow>
               Inr (take 50 (sort_by_priority (Map_values coordinateGroups)))))"

section \<open>The radius filter \<open>pinsWithin\<close>\<close>




section \<open>Notions used to state the properties\<close>

text \<open>
  The position of a record is what its two coordinate fields parse to, in the order of
  the two \<open>parseFloat\<close> calls, or the error the first failing call throws. A record
  is readable when both calls return, valid when the guard then lets it through; its
  grid cell is the key computed from its position. The grid cell of a marker is the key
  of the numbers its \<open>lat\<close> and \<open>lon\<close> parse to.
\<close>

definition parsed_pair :: "js_env \<Rightarrow> jsval \<Rightarrow> jsval \<Rightarrow> error + jsnum \<times> jsnum" where
  "parsed_pair env a b =
     (case parseFloat env a of
        Inl e \<Rightarrow> Inl e
      | Inr la \<Rightarrow> (case parseFloat env b of Inl e \<Rightarrow> Inl e | Inr lo \<Rightarrow> Inr (la, lo)))"

definition valid_position :: "error + jsnum \<times> jsnum \<Rightarrow> bool" where
  "valid_position p = (case p of Inl e \<Rightarrow> False | Inr (la, lo) \<Rightarrow> \<not> invalid_coordinates la lo)"

definition cell_of_position :: "js_env \<Rightarrow> error + jsnum \<times> jsnum \<Rightarrow> error + string" where
  "cell_of_position env p =
     (case p of
        Inl e \<Rightarrow> Inl e
      | Inr (la, lo) \<Rightarrow> getCoordinateKey env (JNum la) (JNum lo) GRID_PRECISION)"

definition event_position :: "js_env \<Rightarrow> hazard_event \<Rightarrow> error + jsnum \<times> jsnum" where
  "event_position env e = parsed_pair env (centroid_lat e) (centroid_lon e)"

definition report_position :: "js_env \<Rightarrow> user_report \<Rightarrow> error + jsnum \<times> jsnum" where
  "report_position env r = parsed_pair env (report_lat r) (report_lon r)"

definition event_valid :: "js_env \<Rightarrow> hazard_event \<Rightarrow> bool" where
  "event_valid env e = valid_position (event_position env e)"

definition report_valid :: "js_env \<Rightarrow> user_report \<Rightarrow> bool" where
  "report_valid env r = valid_position (report_position env r)"

definition event_cell :: "js_env \<Rightarrow> hazard_event \<Rightarrow> error + string" where
  "event_cell env e = cell_of_position env (event_position env e)"

definition report_cell :: "js_env \<Rightarrow> user_report \<Rightarrow> error + string" where
  "report_cell env r = cell_of_position env (report_position env r)"

definition marker_cell :: "js_env \<Rightarrow> marker \<Rightarrow> error + string" where
  "marker_cell env m = cell_of_position env (parsed_pair env (lat m) (lon m))"

text \<open>
  An element of an input array is readable when it is an object whose two coordinate
  fields convert to strings: the elements on which the loop body does not throw.
\<close>

definition event_readable :: "js_env \<Rightarrow> hazard_event option \<Rightarrow> bool" where
  "event_readable env x =
     (case x of
        None \<Rightarrow> False
      | Some e \<Rightarrow> (case event_position env e of Inl err \<Rightarrow> False | Inr p \<Rightarrow> True))"

definition report_readable :: "js_env \<Rightarrow> user_report option \<Rightarrow> bool" where
  "report_readable env x =
     (case x of
        None \<Rightarrow> False
      | Some r \<Rightarrow> (case report_position env r of Inl err \<Rightarrow> False | Inr p \<Rightarrow> True))"

text \<open>The objects among the elements of an input array, in order.\<close>

fun objects :: "'a option list \<Rightarrow> 'a list" where
  "objects [] = []"
| "objects (None # xs) = objects xs"
| "objects (Some r # xs) = r # objects xs"

text \<open>
  The test of the \<open>try\<close> block as a truth value: the report's date is valid and
  later than 30 minutes before the clock reading; a date that cannot be built counts
  as not recent, as the \<open>catch\<close> makes it.
\<close>

definition is_recent :: "js_env \<Rightarrow> user_report \<Rightarrow> bool" where
  "is_recent env r =
     (case new_Date env (timestamp r) of
        Inl e \<Rightarrow> False
      | Inr reportTime \<Rightarrow>
          date_gt reportTime (TimeClip (Fin (of_int (now env - 30 * 60 * 1000)))))"

text \<open>
  For the proofs: the map after both loops, and what holds of every entry of the map
  (its marker is one of the three literals, built from a valid record of that cell).
\<close>

definition final_groups ::
  "js_env \<Rightarrow> hazard_event option list \<Rightarrow> user_report option list \<Rightarrow> error + coordinate_groups" where
  "final_groups env hs rs =
     (case forEach (process_hazard_event env) hs [] of
        Inl e \<Rightarrow> Inl e
      | Inr g1 \<Rightarrow> forEach (process_user_report env) rs g1)"

definition marker_ok :: "js_env \<Rightarrow> string \<Rightarrow> marker \<Rightarrow> bool" where
  "marker_ok env k m =
     (marker_cell env m = Inr k \<and> truthy (lat m) \<and> truthy (lon m) \<and>
      (case data m of
         Event e \<Rightarrow>
           (case event_position env e of
              Inl err \<Rightarrow> False
            | Inr (la, lo) \<Rightarrow>
                \<not> invalid_coordinates la lo \<and> event_cell env e = Inr k \<and>
                m = hazard_event_marker la lo e)
       | Report r \<Rightarrow>
           (case report_position env r of
              Inl err \<Rightarrow> False
            | Inr (la, lo) \<Rightarrow>
                \<not> invalid_coordinates la lo \<and> report_cell env r = Inr k \<and>
                (m = user_report_marker la lo r \<or> m = recent_submission_marker r))))"

definition groups_ok :: "js_env \<Rightarrow> coordinate_groups \<Rightarrow> bool" where
  "groups_ok env g = (distinct (map fst g) \<and> (\<forall>(k, m) \<in> set g. marker_ok env k m))"

text \<open>
  The order in which grid cells are first occupied: the cells of the valid hazard
  events, then those of the valid user reports, each in input order, a cell counted
  at its first occurrence only.
\<close>

definition occupy :: "'k list \<Rightarrow> 'k \<Rightarrow> 'k list" where
  "occupy cells k = (if k \<in> set cells then cells else cells @ [k])"

definition cells_in_order ::
  "js_env \<Rightarrow> hazard_event option list \<Rightarrow> user_report option list \<Rightarrow> (error + string) list" where
  "cells_in_order env hs rs =
     foldl occupy []
       (map (event_cell env) (filter (event_valid env) (objects hs))
        @ map (report_cell env) (filter (report_valid env) (objects rs)))"

definition cell_keys :: "coordinate_groups \<Rightarrow> (error + string) list" where
  "cell_keys g = map (\<lambda>p. Inr (fst p)) g"

text \<open>
  Rounding to \<open>f\<close> decimal digits as \<open>toFixed\<close> rounds: the magnitude to the
  nearest multiple of \<open>10^-f\<close>, the larger one on a tie, with the sign put back.
\<close>

definition rounded :: "nat \<Rightarrow> rat \<Rightarrow> rat" where
  "rounded f x = sgn x * of_int \<lfloor>\<bar>x\<bar> * 10 ^ f + 1 / 2\<rfloor> / 10 ^ f"

text \<open>
  For the proofs about \<open>toFixed\<close>: the scaled and rounded magnitude, its digits
  padded to \<open>f + 1\<close> places, and the way back from the printed string to the padded
  digits (the point removed).
\<close>

definition scaled :: "rat \<Rightarrow> nat \<Rightarrow> int" where
  "scaled a f = \<lfloor>a * 10 ^ f + 1 / 2\<rfloor>"

definition padded :: "int \<Rightarrow> nat \<Rightarrow> string" where
  "padded n f =
     (if length (digits_of n) \<le> f
      then replicate (f + 1 - length (digits_of n)) CHR ''0'' @ digits_of n
      else digits_of n)"

definition unfix :: "nat \<Rightarrow> string \<Rightarrow> string" where
  "unfix f s = (if f = 0 then s else take (length s - f - 1) s @ drop (length s - f) s)"

section \<open>Sample inputs\<close>

text \<open>
  A runtime for the examples: the clock stands at 2023-11-14T22:13:20Z, three ISO
  strings parse (that instant, 31 minutes before it and one hour after it), and
  decimal literals keep their exact value (the examples use coordinates that are exact
  doubles).
\<close>

definition sample_env :: js_env where
  "sample_env =
     \<lparr>now = 1700000000000,
      date_parse = (\<lambda>s. if s = ''2023-11-14T22:13:20.000Z'' then Some 1700000000000
                         else if s = ''2023-11-14T21:42:20.000Z'' then Some 1699998140000
                         else if s = ''2023-11-14T23:13:20.000Z'' then Some 1700003600000
                         else None),
      to_double = Fin,
      number_to_string = (\<lambda>q. [])\<rparr>"

definition chennai_event :: hazard_event where
  "chennai_event =
     \<lparr>event_id = JStr ''ev-1'', centroid_lat = JNum (Fin (105 / 8)),
      centroid_lon = JNum (Fin (321 / 4)), event_confidence = JNum (Fin (3 / 4))\<rparr>"

definition own_report_now :: user_report where
  "own_report_now =
     \<lparr>report_id = JStr ''rp-1'', report_lat = JStr ''13.125'', report_lon = JStr ''80.25'',
      isUserSubmission = JBool True, report_confidence = JUndefined,
      timestamp = JStr ''2023-11-14T22:13:20.000Z''\<rparr>"

definition broken_event :: hazard_event where
  "broken_event =
     \<lparr>event_id = JStr ''ev-2'', centroid_lat = JUndefined,
      centroid_lon = JStr ''east'', event_confidence = JNull\<rparr>"

definition broken_report :: user_report where
  "broken_report =
     \<lparr>report_id = JStr ''rp-2'', report_lat = JStr ''n/a'', report_lon = JNull,
      isUserSubmission = JBool True, report_confidence = JUndefined,
      timestamp = JStr ''yesterday''\<rparr>"

definition undated_report :: user_report where
  "undated_report =
     \<lparr>report_id = JStr ''rp-3'', report_lat = JNum (Fin (105 / 8)),
      report_lon = JNum (Fin (321 / 4)), isUserSubmission = JBool True,
      report_confidence = JNum (Fin (9 / 10)), timestamp = JStr ''yesterday''\<rparr>"

definition own_report_old :: user_report where
  "own_report_old = own_report_now\<lparr>timestamp := JStr ''2023-11-14T21:42:20.000Z''\<rparr>"

definition own_report_future :: user_report where
  "own_report_future = own_report_now\<lparr>timestamp := JStr ''2023-11-14T23:13:20.000Z''\<rparr>"

text \<open>
  A hazard event whose latitude is the JSON object \<open>{"toString": 1}\<close>, and a report
  that carries the same object as its timestamp.
\<close>

definition unprintable_event :: hazard_event where
  "unprintable_event =
     \<lparr>event_id = JStr ''ev-10'', centroid_lat = JObj None,
      centroid_lon = JNum (Fin (321 / 4)), event_confidence = JNum (Fin (3 / 4))\<rparr>"

definition unprintable_date_report :: user_report where
  "unprintable_date_report = own_report_now\<lparr>timestamp := JObj None\<rparr>"

definition chennai_groups :: coordinate_groups where
  "chennai_groups =
     [(''13.125_80.250'', hazard_event_marker (Fin (105 / 8)) (Fin (321 / 4)) chennai_event)]"

definition citizen_report_now :: user_report where
  "citizen_report_now = own_report_now\<lparr>isUserSubmission := JBool False\<rparr>"

definition equator_event :: hazard_event where
  "equator_event =
     \<lparr>event_id = JStr ''ev-3'', centroid_lat = JNum (Fin 0),
      centroid_lon = JNum (Fin (321 / 4)), event_confidence = JNum (Fin (3 / 4))\<rparr>"

definition meridian_report :: user_report where
  "meridian_report =
     \<lparr>report_id = JStr ''rp-4'', report_lat = JStr ''51.5'', report_lon = JStr ''0.0'',
      isUserSubmission = JBool True, report_confidence = JUndefined,
      timestamp = JStr ''2023-11-14T22:13:20.000Z''\<rparr>"

definition unscored_event :: hazard_event where
  "unscored_event =
     \<lparr>event_id = JStr ''ev-4'', centroid_lat = JNum (Fin (25 / 2)),
      centroid_lon = JNum (Fin (321 / 4)), event_confidence = JNum (Fin 0)\<rparr>"

definition unscored_report :: user_report where
  "unscored_report =
     \<lparr>report_id = JStr ''rp-5'', report_lat = JNum (Fin (23 / 2)),
      report_lon = JNum (Fin (321 / 4)), isUserSubmission = JBool False,
      report_confidence = JNum (Fin 0), timestamp = JStr ''2023-11-14T22:13:20.000Z''\<rparr>"

text \<open>Sixty hazard events on sixty different parallels, one degree apart.\<close>

definition numbered_event :: "int \<Rightarrow> hazard_event" where
  "numbered_event i =
     \<lparr>event_id = JNum (Fin (of_int i)), centroid_lat = JNum (Fin (of_int i)),
      centroid_lon = JNum (Fin (321 / 4)), event_confidence = JNum (Fin (3 / 4))\<rparr>"

definition sixty_events :: "hazard_event list" where
  "sixty_events = map numbered_event [1..60]"

definition madurai_event :: hazard_event where
  "madurai_event =
     \<lparr>event_id = JStr ''ev-5'', centroid_lat = JNum (Fin (79 / 8)),
      centroid_lon = JNum (Fin (625 / 8)), event_confidence = JNum (Fin (1 / 4))\<rparr>"

definition madurai_report :: user_report where
  "madurai_report =
     \<lparr>report_id = JStr ''rp-6'', report_lat = JNum (Fin (79 / 8)),
      report_lon = JNum (Fin (625 / 8)), isUserSubmission = JBool True,
      report_confidence = JUndefined, timestamp = JStr ''2023-11-14T22:13:20.000Z''\<rparr>"

text \<open>Two hazard events 27 m apart, on either side of the equator.\<close>

definition north_of_equator :: hazard_event where
  "north_of_equator =
     \<lparr>event_id = JStr ''ev-6'', centroid_lat = JNum (Fin (1 / 8192)),
      centroid_lon = JNum (Fin (321 / 4)), event_confidence = JNum (Fin (3 / 4))\<rparr>"

definition south_of_equator :: hazard_event where
  "south_of_equator =
     \<lparr>event_id = JStr ''ev-7'', centroid_lat = JNum (Fin (- 1 / 8192)),
      centroid_lon = JNum (Fin (321 / 4)), event_confidence = JNum (Fin (3 / 4))\<rparr>"








section \<open>Basic facts\<close>

lemma toFixed_number:
  "0 \<le> f \<Longrightarrow> f \<le> 100 \<Longrightarrow> \<exists>s. toFixed env (JNum x) f = Inr s"
  by (cases x) (simp_all add: toFixed_def Let_def)

lemma getCoordinateKey_number:
  "\<exists>k. getCoordinateKey env (JNum x) (JNum y) GRID_PRECISION = Inr k"
proof -
  obtain a where a: "toFixed env (JNum x) GRID_PRECISION = Inr a"
    using toFixed_number [of GRID_PRECISION env x] by (auto simp: GRID_PRECISION_def)
  obtain b where b: "toFixed env (JNum y) GRID_PRECISION = Inr b"
    using toFixed_number [of GRID_PRECISION env y] by (auto simp: GRID_PRECISION_def)
  show ?thesis by (simp add: getCoordinateKey_def a b)
qed

lemma Map_has_iff: "Map_has g k \<longleftrightarrow> k \<in> fst ` set g"
  by (simp add: Map_has_def map_of_eq_None_iff)

lemma keys_Map_set:
  "map fst (Map_set g k v) = (if k \<in> fst ` set g then map fst g else map fst g @ [k])"
  by (induction g) force+

lemma set_Map_set: "set (Map_set g k v) \<subseteq> insert (k, v) (set g)"
  by (induction g) (auto split: if_splits)

lemma map_of_Map_set: "map_of (Map_set g k v) = (map_of g)(k \<mapsto> v)"
  by (induction g) (auto simp: fun_eq_iff)

lemma distinct_keys_Map_set:
  "distinct (map fst g) \<Longrightarrow> distinct (map fst (Map_set g k v))"
  by (simp add: keys_Map_set)

lemma forEach_append:
  "forEach f (xs @ ys) s = (case forEach f xs s of Inl e \<Rightarrow> Inl e | Inr s' \<Rightarrow> forEach f ys s')"
  by (induction xs arbitrary: s) (auto split: sum.splits)

lemma forEach_preserves:
  assumes step: "\<And>s x s'. f s x = Inr s' \<Longrightarrow> P s \<Longrightarrow> P s'"
    and run: "forEach f xs s = Inr s'"
    and init: "P s"
  shows "P s'"
  using run init
proof (induction xs arbitrary: s)
  case Nil
  then show ?case by simp
next
  case (Cons x xs)
  from Cons.prems(1) obtain s1 where s1: "f s x = Inr s1" "forEach f xs s1 = Inr s'"
    by (auto split: sum.splits)
  from step [OF s1(1) Cons.prems(2)] have "P s1" .
  from Cons.IH [OF s1(2) this] show ?case .
qed

lemma forEach_returns:
  assumes "\<And>s x. x \<in> set xs \<Longrightarrow> \<exists>s'. f s x = Inr s'"
  shows "\<exists>s'. forEach f xs s = Inr s'"
  using assms
proof (induction xs arbitrary: s)
  case Nil
  then show ?case by simp
next
  case (Cons x xs)
  obtain s1 where s1: "f s x = Inr s1" using Cons.prems [of x s] by auto
  have "\<exists>s'. forEach f xs s1 = Inr s'"
    by (rule Cons.IH) (use Cons.prems in auto)
  then show ?case by (simp add: s1)
qed

lemma forEach_throws:
  assumes "x \<in> set xs" and "\<And>s. \<exists>e. f s x = Inl e"
  shows "\<exists>e. forEach f xs s = Inl e"
  using assms(1)
proof (induction xs arbitrary: s)
  case Nil
  then show ?case by simp
next
  case (Cons y ys)
  show ?case
  proof (cases "f s y")
    case (Inl e)
    then show ?thesis by simp
  next
    case (Inr s1)
    have "y \<noteq> x" using Inr assms(2) [of s] by auto
    then have "x \<in> set ys" using Cons.prems by simp
    from Cons.IH [OF this] show ?thesis by (simp add: Inr)
  qed
qed

text \<open>What each loop body does.\<close>

lemma process_hazard_event_Some:
  "process_hazard_event env g (Some e) =
     (case event_position env e of
        Inl err \<Rightarrow> Inl err
      | Inr (la, lo) \<Rightarrow>
          if invalid_coordinates la lo then Inr g
          else (case getCoordinateKey env (JNum la) (JNum lo) GRID_PRECISION of
                  Inl err \<Rightarrow> Inl err
                | Inr key \<Rightarrow>
                    if \<not> Map_has g key
                    then Inr (Map_set g key (hazard_event_marker la lo e))
                    else Inr g))"
  by (simp add: process_hazard_event_def event_position_def parsed_pair_def split: sum.splits)

lemma caught_replace:
  "(case replace_if_recent env g k r of Inl e \<Rightarrow> Inr g | Inr g' \<Rightarrow> Inr g')
     = (Inr (if is_recent env r then Map_set g k (recent_submission_marker r) else g)
          :: error + coordinate_groups)"
proof (cases "new_Date env (timestamp r)")
  case (Inl e)
  then show ?thesis by (simp add: replace_if_recent_def is_recent_def)
next
  case (Inr t)
  then show ?thesis by (simp add: replace_if_recent_def is_recent_def)
qed

lemma process_user_report_Some:
  "process_user_report env g (Some r) =
     (case report_position env r of
        Inl err \<Rightarrow> Inl err
      | Inr (la, lo) \<Rightarrow>
          if invalid_coordinates la lo then Inr g
          else (case getCoordinateKey env (JNum la) (JNum lo) GRID_PRECISION of
                  Inl err \<Rightarrow> Inl err
                | Inr key \<Rightarrow>
                    if \<not> Map_has g key
                    then Inr (Map_set g key (user_report_marker la lo r))
                    else if truthy (isUserSubmission r) \<and> is_recent env r
                    then Inr (Map_set g key (recent_submission_marker r))
                    else Inr g))"
  by (simp add: process_user_report_def report_position_def parsed_pair_def caught_replace
           split: sum.splits)

lemma process_hazard_event_invalid:
  assumes "event_position env e = Inr (la, lo)" and "invalid_coordinates la lo"
  shows "process_hazard_event env g (Some e) = Inr g"
  using assms by (simp add: process_hazard_event_Some)

lemma process_hazard_event_valid:
  assumes "event_position env e = Inr (la, lo)" and "\<not> invalid_coordinates la lo"
    and "event_cell env e = Inr k"
  shows "process_hazard_event env g (Some e) =
           Inr (if Map_has g k then g else Map_set g k (hazard_event_marker la lo e))"
  using assms
  by (simp add: process_hazard_event_Some event_cell_def cell_of_position_def)

lemma process_user_report_invalid:
  assumes "report_position env r = Inr (la, lo)" and "invalid_coordinates la lo"
  shows "process_user_report env g (Some r) = Inr g"
  using assms by (simp add: process_user_report_Some)

lemma process_user_report_valid:
  assumes "report_position env r = Inr (la, lo)" and "\<not> invalid_coordinates la lo"
    and "report_cell env r = Inr k"
  shows "process_user_report env g (Some r) =
           Inr (if \<not> Map_has g k then Map_set g k (user_report_marker la lo r)
                else if truthy (isUserSubmission r) \<and> is_recent env r
                     then Map_set g k (recent_submission_marker r)
                     else g)"
  using assms
  by (simp add: process_user_report_Some report_cell_def cell_of_position_def)

lemma cell_of_position_Inr: "\<exists>k. cell_of_position env (Inr (la, lo)) = Inr k"
  using getCoordinateKey_number [of env la lo] by (simp add: cell_of_position_def)

lemma valid_positionE:
  assumes "valid_position p"
  obtains la lo where "p = Inr (la, lo)" and "\<not> invalid_coordinates la lo"
  using assms by (auto simp: valid_position_def split: sum.splits)

text \<open>The elements on which a loop body returns are the readable ones.\<close>

lemma process_hazard_event_readable:
  "event_readable env x \<Longrightarrow> \<exists>g'. process_hazard_event env g x = Inr g'"
proof -
  assume "event_readable env x"
  then obtain e la lo where x: "x = Some e" and p: "event_position env e = Inr (la, lo)"
    by (auto simp: event_readable_def split: option.splits sum.splits)
  obtain k where "getCoordinateKey env (JNum la) (JNum lo) GRID_PRECISION = Inr k"
    using getCoordinateKey_number by blast
  then show ?thesis by (simp add: x process_hazard_event_Some p)
qed

lemma process_hazard_event_None: "process_hazard_event env g None = Inl TypeError"
  by (simp add: process_hazard_event_def)

lemma process_hazard_event_unreadable:
  "\<not> event_readable env x \<Longrightarrow> \<exists>err. process_hazard_event env g x = Inl err"
proof (cases x)
  case None
  then show ?thesis by (simp add: process_hazard_event_None)
next
  case (Some e)
  assume "\<not> event_readable env x"
  then obtain err where "event_position env e = Inl err"
    using Some by (auto simp: event_readable_def split: sum.splits)
  then show ?thesis by (simp add: Some process_hazard_event_Some)
qed

lemma process_hazard_event_InrD:
  assumes "process_hazard_event env g x = Inr g'"
  obtains e la lo where "x = Some e" and "event_position env e = Inr (la, lo)"
proof -
  have "event_readable env x"
    using assms process_hazard_event_unreadable [of env x g] by auto
  then show ?thesis
    using that by (auto simp: event_readable_def split: option.splits sum.splits)
qed

lemma process_user_report_readable:
  "report_readable env x \<Longrightarrow> \<exists>g'. process_user_report env g x = Inr g'"
proof -
  assume "report_readable env x"
  then obtain r la lo where x: "x = Some r" and p: "report_position env r = Inr (la, lo)"
    by (auto simp: report_readable_def split: option.splits sum.splits)
  obtain k where "getCoordinateKey env (JNum la) (JNum lo) GRID_PRECISION = Inr k"
    using getCoordinateKey_number by blast
  then show ?thesis by (simp add: x process_user_report_Some p)
qed

lemma process_user_report_None: "process_user_report env g None = Inl TypeError"
  by (simp add: process_user_report_def)

lemma process_user_report_unreadable:
  "\<not> report_readable env x \<Longrightarrow> \<exists>err. process_user_report env g x = Inl err"
proof (cases x)
  case None
  then show ?thesis by (simp add: process_user_report_None)
next
  case (Some r)
  assume "\<not> report_readable env x"
  then obtain err where "report_position env r = Inl err"
    using Some by (auto simp: report_readable_def split: sum.splits)
  then show ?thesis by (simp add: Some process_user_report_Some)
qed

lemma process_user_report_InrD:
  assumes "process_user_report env g x = Inr g'"
  obtains r la lo where "x = Some r" and "report_position env r = Inr (la, lo)"
proof -
  have "report_readable env x"
    using assms process_user_report_unreadable [of env x g] by auto
  then show ?thesis
    using that by (auto simp: report_readable_def split: option.splits sum.splits)
qed

lemma createUnifiedMarkerData_eq:
  "createUnifiedMarkerData env hs rs =
     map_sum id (\<lambda>g. take 50 (sort_by_priority (Map_values g))) (final_groups env hs rs)"
  by (simp add: createUnifiedMarkerData_def final_groups_def split: sum.splits)

lemma unified_groups:
  assumes "createUnifiedMarkerData env hs rs = Inr ms"
  obtains g where "final_groups env hs rs = Inr g"
    and "ms = take 50 (sort_by_priority (Map_values g))"
  using assms by (cases "final_groups env hs rs") (auto simp: createUnifiedMarkerData_eq)

lemma final_groups_returns_iff:
  "(\<exists>g. final_groups env hs rs = Inr g)
     \<longleftrightarrow> list_all (event_readable env) hs \<and> list_all (report_readable env) rs"
proof
  assume "\<exists>g. final_groups env hs rs = Inr g"
  then obtain g g1 where g1: "forEach (process_hazard_event env) hs [] = Inr g1"
    and g: "forEach (process_user_report env) rs g1 = Inr g"
    by (auto simp: final_groups_def split: sum.splits)
  have "event_readable env x" if "x \<in> set hs" for x
  proof (rule ccontr)
    assume "\<not> event_readable env x"
    then have "\<exists>e. process_hazard_event env s x = Inl e" for s
      by (rule process_hazard_event_unreadable)
    then have "\<exists>e. forEach (process_hazard_event env) hs [] = Inl e"
      using that by (intro forEach_throws [where x = x]) auto
    with g1 show False by auto
  qed
  moreover have "report_readable env x" if "x \<in> set rs" for x
  proof (rule ccontr)
    assume "\<not> report_readable env x"
    then have "\<exists>e. process_user_report env s x = Inl e" for s
      by (rule process_user_report_unreadable)
    then have "\<exists>e. forEach (process_user_report env) rs g1 = Inl e"
      using that by (intro forEach_throws [where x = x]) auto
    with g show False by auto
  qed
  ultimately show "list_all (event_readable env) hs \<and> list_all (report_readable env) rs"
    by (simp add: list_all_iff)
next
  assume a: "list_all (event_readable env) hs \<and> list_all (report_readable env) rs"
  have "\<exists>g1. forEach (process_hazard_event env) hs [] = Inr g1"
    by (rule forEach_returns) (use a process_hazard_event_readable in \<open>auto simp: list_all_iff\<close>)
  then obtain g1 where g1: "forEach (process_hazard_event env) hs [] = Inr g1" by blast
  have "\<exists>g. forEach (process_user_report env) rs g1 = Inr g"
    by (rule forEach_returns) (use a process_user_report_readable in \<open>auto simp: list_all_iff\<close>)
  then show "\<exists>g. final_groups env hs rs = Inr g" by (simp add: final_groups_def g1)
qed

text \<open>Truthiness of what was parsed.\<close>

lemma parse_literal_empty: "parse_literal env [] = NaN"
  by (simp add: parse_literal_def unsigned_literal_def trim_start.simps)

lemma truthy_parseFloat: "parseFloat env v = Inr x \<Longrightarrow> truthy (JNum x) \<Longrightarrow> truthy v"
  by (cases v) (auto simp: parse_literal_empty)

lemma valid_truthy:
  "\<not> invalid_coordinates la lo \<Longrightarrow> truthy (JNum la) \<and> truthy (JNum lo)"
  by (simp add: invalid_coordinates_def)

lemma parsed_pair_Inr:
  "parsed_pair env a b = Inr (la, lo) \<longleftrightarrow> parseFloat env a = Inr la \<and> parseFloat env b = Inr lo"
  by (auto simp: parsed_pair_def split: sum.splits)

lemma parsed_pair_numbers: "parsed_pair env (JNum la) (JNum lo) = Inr (la, lo)"
  by (simp add: parsed_pair_def)

text \<open>Each of the three literals is a sound entry for the cell of its record.\<close>

lemma marker_ok_hazard:
  assumes "event_position env e = Inr (la, lo)" and "\<not> invalid_coordinates la lo"
    and "event_cell env e = Inr k"
  shows "marker_ok env k (hazard_event_marker la lo e)"
  using assms valid_truthy [of la lo]
  by (simp add: marker_ok_def hazard_event_marker_def marker_cell_def event_cell_def
                parsed_pair_numbers)

lemma marker_ok_report:
  assumes "report_position env r = Inr (la, lo)" and "\<not> invalid_coordinates la lo"
    and "report_cell env r = Inr k"
  shows "marker_ok env k (user_report_marker la lo r)"
  using assms valid_truthy [of la lo]
  by (simp add: marker_ok_def user_report_marker_def marker_cell_def report_cell_def
                parsed_pair_numbers)

lemma marker_ok_recent:
  assumes "report_position env r = Inr (la, lo)" and "\<not> invalid_coordinates la lo"
    and "report_cell env r = Inr k"
  shows "marker_ok env k (recent_submission_marker r)"
proof -
  have p: "parseFloat env (report_lat r) = Inr la" "parseFloat env (report_lon r) = Inr lo"
    using assms(1) by (simp_all add: report_position_def parsed_pair_Inr)
  have t: "truthy (report_lat r)" "truthy (report_lon r)"
    using p valid_truthy [OF assms(2)] by (auto intro: truthy_parseFloat)
  have c: "marker_cell env (recent_submission_marker r) = Inr k"
    using assms(3)
    by (simp add: marker_cell_def recent_submission_marker_def report_cell_def
                  report_position_def)
  show ?thesis
    using assms t c by (simp add: marker_ok_def recent_submission_marker_def)
qed

lemma groups_ok_Map_set:
  assumes "groups_ok env g" and "marker_ok env k m"
  shows "groups_ok env (Map_set g k m)"
  using assms set_Map_set [of g k m]
  by (auto simp: groups_ok_def distinct_keys_Map_set)

lemma groups_ok_process_hazard_event:
  assumes "process_hazard_event env g x = Inr g'" and "groups_ok env g"
  shows "groups_ok env g'"
proof -
  from assms(1) obtain e la lo where x: "x = Some e"
    and p: "event_position env e = Inr (la, lo)"
    by (rule process_hazard_event_InrD)
  show ?thesis
  proof (cases "invalid_coordinates la lo")
    case True
    then show ?thesis
      using assms by (simp add: x process_hazard_event_invalid [OF p True])
  next
    case False
    obtain k where k: "event_cell env e = Inr k"
      using cell_of_position_Inr [of env la lo] by (auto simp: event_cell_def p)
    show ?thesis
      using assms marker_ok_hazard [OF p False k]
      by (auto simp: x process_hazard_event_valid [OF p False k] groups_ok_Map_set
               split: if_splits)
  qed
qed

lemma groups_ok_process_user_report:
  assumes "process_user_report env g x = Inr g'" and "groups_ok env g"
  shows "groups_ok env g'"
proof -
  from assms(1) obtain r la lo where x: "x = Some r"
    and p: "report_position env r = Inr (la, lo)"
    by (rule process_user_report_InrD)
  show ?thesis
  proof (cases "invalid_coordinates la lo")
    case True
    then show ?thesis
      using assms by (simp add: x process_user_report_invalid [OF p True])
  next
    case False
    obtain k where k: "report_cell env r = Inr k"
      using cell_of_position_Inr [of env la lo] by (auto simp: report_cell_def p)
    show ?thesis
      using assms marker_ok_report [OF p False k] marker_ok_recent [OF p False k]
      by (auto simp: x process_user_report_valid [OF p False k] groups_ok_Map_set
               split: if_splits)
  qed
qed

lemma groups_ok_final:
  assumes "final_groups env hs rs = Inr g"
  shows "groups_ok env g"
proof -
  from assms obtain g1 where g1: "forEach (process_hazard_event env) hs [] = Inr g1"
    and g: "forEach (process_user_report env) rs g1 = Inr g"
    by (auto simp: final_groups_def split: sum.splits)
  have "groups_ok env []" by (simp add: groups_ok_def)
  with g1 have "groups_ok env g1"
    by (rule forEach_preserves [rotated 1]) (rule groups_ok_process_hazard_event)
  with g show ?thesis
    by (rule forEach_preserves [rotated 1]) (rule groups_ok_process_user_report)
qed

text \<open>From the map to the returned array.\<close>

lemma set_unified_subset:
  "set (take 50 (sort_by_priority (Map_values g))) \<subseteq> snd ` set g"
  using set_take_subset [of 50 "sort_by_priority (Map_values g)"]
  by (simp add: sort_by_priority_def Map_values_def)

lemma marker_cell_values:
  "groups_ok env g \<Longrightarrow> map (marker_cell env) (Map_values g) = map (\<lambda>p. Inr (fst p)) g"
  by (auto simp: groups_ok_def Map_values_def marker_ok_def)

lemma distinct_cells_values:
  assumes "groups_ok env g"
  shows "distinct (map (marker_cell env) (Map_values g))"
proof -
  have "distinct (map fst g)" using assms by (simp add: groups_ok_def)
  then have "distinct (map (Inr :: string \<Rightarrow> error + string) (map fst g))"
    by (subst distinct_map) (auto intro: inj_onI)
  then have "distinct (map (\<lambda>p. Inr (fst p) :: error + string) g)"
    by (simp add: comp_def)
  then show ?thesis by (simp only: marker_cell_values [OF assms])
qed

lemma distinct_map_sort_take:
  assumes "distinct (map f xs)"
  shows "distinct (map f (take n (sort_key h xs)))"
proof -
  from assms have d: "distinct xs" and i: "inj_on f (set xs)"
    by (simp_all add: distinct_map)
  have "distinct (take n (sort_key h xs))" using d by simp
  moreover have "inj_on f (set (take n (sort_key h xs)))"
    using i set_take_subset [of n "sort_key h xs"] by (auto intro: inj_on_subset)
  ultimately show ?thesis by (simp add: distinct_map)
qed

lemma unified_marker_ok:
  assumes "createUnifiedMarkerData env hs rs = Inr ms" and "m \<in> set ms"
  shows "\<exists>k. marker_ok env k m"
proof -
  from assms(1) obtain g where g: "final_groups env hs rs = Inr g"
    and ms: "ms = take 50 (sort_by_priority (Map_values g))"
    by (rule unified_groups)
  from assms(2) ms have "m \<in> snd ` set g"
    using set_unified_subset [of g] by auto
  then obtain k where "(k, m) \<in> set g" by auto
  with groups_ok_final [OF g] show ?thesis by (auto simp: groups_ok_def)
qed


text \<open>
  Leading white space outside ASCII is stripped as well: a no-break space (U+00A0) and
  a line separator (U+2028) before the digits.
\<close>

lemma parseFloat_strips_unicode_space:
  "parseFloat sample_env (JStr (CHR 0xC2 # CHR 0xA0 # ''13.125'')) = Inr (Fin (105 / 8))
   \<and> parseFloat sample_env (JStr (CHR 0xE2 # CHR 0x80 # CHR 0xA8 # '' -80.25''))
       = Inr (Fin (- 321 / 4))"
  by code_simp

section \<open>The properties\<close>

lemma unified_returns:
  assumes "list_all (event_readable env) hs" and "list_all (report_readable env) rs"
  obtains ms where "createUnifiedMarkerData env hs rs = Inr ms"
proof -
  from assms obtain g where "final_groups env hs rs = Inr g"
    using final_groups_returns_iff [of env hs rs] by blast
  then have "createUnifiedMarkerData env hs rs = Inr (take 50 (sort_by_priority (Map_values g)))"
    by (simp add: createUnifiedMarkerData_eq)
  then show thesis by (rule that)
qed

lemma marker_ok_EventD:
  assumes "marker_ok env k m" and "data m = Event e"
  obtains la lo where "event_position env e = Inr (la, lo)" and "\<not> invalid_coordinates la lo"
    and "event_cell env e = Inr k" and "m = hazard_event_marker la lo e"
  using assms by (auto simp: marker_ok_def split: sum.splits)

lemma marker_ok_ReportD:
  assumes "marker_ok env k m" and "data m = Report r"
  obtains la lo where "report_position env r = Inr (la, lo)" and "\<not> invalid_coordinates la lo"
    and "report_cell env r = Inr k"
    and "m = user_report_marker la lo r \<or> m = recent_submission_marker r"
  using assms by (auto simp: marker_ok_def split: sum.splits)

text \<open>
  C1 (deduplication invariant). On every pair of input lists on which the call returns,
  that is, whose elements are all readable, the returned list has no two markers with
  the same grid key at the 3-decimal precision: every returned marker has a key and
  these keys are pairwise different.
\<close>

theorem unified_markers_distinct_cells:
  assumes "list_all (event_readable env) hazardEvents"
    and "list_all (report_readable env) userReports"
  shows "\<exists>ms ks. createUnifiedMarkerData env hazardEvents userReports = Inr ms
                 \<and> map (marker_cell env) ms = map Inr ks \<and> distinct ks"
proof -
  from assms obtain ms where r: "createUnifiedMarkerData env hazardEvents userReports = Inr ms"
    by (rule unified_returns)
  then obtain g where g: "final_groups env hazardEvents userReports = Inr g"
    and ms: "ms = take 50 (sort_key (\<lambda>m. - priority m) (Map_values g))"
    unfolding sort_by_priority_def [symmetric] by (rule unified_groups)
  have ok: "groups_ok env g" by (rule groups_ok_final [OF g])
  have d: "distinct (map (marker_cell env) ms)"
    unfolding ms by (rule distinct_map_sort_take [OF distinct_cells_values [OF ok]])
  have "set ms \<subseteq> snd ` set g"
    using set_unified_subset [of g] by (simp add: ms sort_by_priority_def)
  then have "\<forall>m \<in> set ms. \<exists>k. marker_cell env m = Inr k"
    using ok by (fastforce simp: groups_ok_def marker_ok_def)
  then have "\<exists>ks. map (marker_cell env) ms = map Inr ks"
  proof (induction ms)
    case Nil
    then show ?case by simp
  next
    case (Cons m ms)
    then obtain k ks where "marker_cell env m = Inr k" "map (marker_cell env) ms = map Inr ks"
      by auto
    then have "map (marker_cell env) (m # ms) = map Inr (k # ks)" by simp
    then show ?case by blast
  qed
  then obtain ks where ks: "map (marker_cell env) ms = map Inr ks" by blast
  with d have "distinct ks" by (simp add: distinct_map)
  with r ks show ?thesis by blast
qed

theorem unified_markers_distinct_cells_witness:
  "list_all (event_readable sample_env) [Some chennai_event, Some madurai_event]
   \<and> list_all (report_readable sample_env) [Some own_report_now, Some unscored_report]
   \<and> createUnifiedMarkerData sample_env [Some chennai_event, Some madurai_event]
       [Some own_report_now, Some unscored_report]
     = Inr [hazard_event_marker (Fin (79 / 8)) (Fin (625 / 8)) madurai_event,
            recent_submission_marker own_report_now,
            user_report_marker (Fin (23 / 2)) (Fin (321 / 4)) unscored_report]
   \<and> map (marker_cell sample_env)
        [hazard_event_marker (Fin (79 / 8)) (Fin (625 / 8)) madurai_event,
         recent_submission_marker own_report_now,
         user_report_marker (Fin (23 / 2)) (Fin (321 / 4)) unscored_report]
       = map Inr [''9.875_78.125'', ''13.125_80.250'', ''11.500_80.250'']
   \<and> distinct [''9.875_78.125'', ''13.125_80.250'', ''11.500_80.250'']"
proof -
  have h0: "list_all (event_readable sample_env) [Some chennai_event, Some madurai_event]"
    by code_simp
  have h0': "list_all (report_readable sample_env) [Some own_report_now, Some unscored_report]"
    by code_simp
  have h1: "createUnifiedMarkerData sample_env [Some chennai_event, Some madurai_event]
       [Some own_report_now, Some unscored_report]
     = Inr [hazard_event_marker (Fin (79 / 8)) (Fin (625 / 8)) madurai_event,
            recent_submission_marker own_report_now,
            user_report_marker (Fin (23 / 2)) (Fin (321 / 4)) unscored_report]"
    by code_simp
  have h2: "map (marker_cell sample_env)
        [hazard_event_marker (Fin (79 / 8)) (Fin (625 / 8)) madurai_event,
         recent_submission_marker own_report_now,
         user_report_marker (Fin (23 / 2)) (Fin (321 / 4)) unscored_report]
       = map Inr [''9.875_78.125'', ''13.125_80.250'', ''11.500_80.250'']"
    by code_simp
  from unified_markers_distinct_cells [OF h0 h0'] h1 h2
  have "distinct [''9.875_78.125'', ''13.125_80.250'', ''11.500_80.250'']"
    by (auto simp only: sum.inject inj_map_eq_map [OF inj_Inr])
  with h0 h0' h1 h2 show ?thesis by simp
qed

text \<open>Towards the skipping of records: an element that changes no map can be left out.\<close>

lemma forEach_skip:
  assumes "\<And>s. f s x = Inr s"
  shows "forEach f (xs @ x # ys) s = forEach f (xs @ ys) s"
  by (induction xs arbitrary: s) (auto simp: assms split: sum.splits)

lemma invalid_event_skipped:
  assumes "event_readable env (Some e)" and "\<not> event_valid env e"
  shows "process_hazard_event env g (Some e) = Inr g"
proof -
  from assms(1) obtain la lo where p: "event_position env e = Inr (la, lo)"
    by (auto simp: event_readable_def split: sum.splits)
  with assms(2) have "invalid_coordinates la lo"
    by (simp add: event_valid_def valid_position_def)
  then show ?thesis by (rule process_hazard_event_invalid [OF p])
qed

lemma invalid_report_skipped:
  assumes "report_readable env (Some r)" and "\<not> report_valid env r"
  shows "process_user_report env g (Some r) = Inr g"
proof -
  from assms(1) obtain la lo where p: "report_position env r = Inr (la, lo)"
    by (auto simp: report_readable_def split: sum.splits)
  with assms(2) have "invalid_coordinates la lo"
    by (simp add: report_valid_def valid_position_def)
  then show ?thesis by (rule process_user_report_invalid [OF p])
qed

text \<open>
  C9, as the code has it. The call returns a list, and raises nothing, exactly on the
  inputs all of whose elements are objects with coordinate fields that convert to a
  string; on every other input a \<open>TypeError\<close> reaches the caller, since the field
  reads and the two \<open>parseFloat\<close> calls stand outside the \<open>try\<close>. A readable
  record that fails the guard is skipped: the result is that of the input without it.
  A report whose timestamp gives no valid date, or whose date cannot be built at all
  (caught by the \<open>try\<close>), is still inserted into a free cell and never replaces the
  occupant of a taken one.
\<close>

theorem createUnifiedMarkerData_raises_only_on_unreadable:
  "((\<exists>ms. createUnifiedMarkerData env hs rs = Inr ms)
      \<longleftrightarrow> list_all (event_readable env) hs \<and> list_all (report_readable env) rs)
   \<and> (event_readable env (Some e) \<and> \<not> event_valid env e \<longrightarrow>
        createUnifiedMarkerData env (hs1 @ Some e # hs2) rs
          = createUnifiedMarkerData env (hs1 @ hs2) rs)
   \<and> (report_readable env (Some r) \<and> \<not> report_valid env r \<longrightarrow>
        createUnifiedMarkerData env hs (rs1 @ Some r # rs2)
          = createUnifiedMarkerData env hs (rs1 @ rs2))
   \<and> (report_position env r' = Inr (la, lo) \<and> \<not> invalid_coordinates la lo
        \<and> report_cell env r' = Inr k
        \<and> (\<forall>t. new_Date env (timestamp r') \<noteq> Inr (Some t)) \<longrightarrow>
        process_user_report env g (Some r') =
          Inr (if Map_has g k then g else Map_set g k (user_report_marker la lo r')))"
proof (intro conjI impI)
  have "(\<exists>ms. createUnifiedMarkerData env hs rs = Inr ms)
          \<longleftrightarrow> (\<exists>g. final_groups env hs rs = Inr g)"
    by (cases "final_groups env hs rs") (simp_all add: createUnifiedMarkerData_eq)
  then show "(\<exists>ms. createUnifiedMarkerData env hs rs = Inr ms)
      \<longleftrightarrow> list_all (event_readable env) hs \<and> list_all (report_readable env) rs"
    by (simp only: final_groups_returns_iff)
next
  assume "event_readable env (Some e) \<and> \<not> event_valid env e"
  then have "process_hazard_event env s (Some e) = Inr s" for s
    by (simp add: invalid_event_skipped)
  then have "forEach (process_hazard_event env) (hs1 @ Some e # hs2) []
               = forEach (process_hazard_event env) (hs1 @ hs2) []"
    by (rule forEach_skip)
  then show "createUnifiedMarkerData env (hs1 @ Some e # hs2) rs
               = createUnifiedMarkerData env (hs1 @ hs2) rs"
    by (simp add: createUnifiedMarkerData_def)
next
  assume "report_readable env (Some r) \<and> \<not> report_valid env r"
  then have "process_user_report env s (Some r) = Inr s" for s
    by (simp add: invalid_report_skipped)
  then have "forEach (process_user_report env) (rs1 @ Some r # rs2) s
               = forEach (process_user_report env) (rs1 @ rs2) s" for s
    by (rule forEach_skip)
  then show "createUnifiedMarkerData env hs (rs1 @ Some r # rs2)
               = createUnifiedMarkerData env hs (rs1 @ rs2)"
    by (simp add: createUnifiedMarkerData_def split: sum.splits)
next
  assume a: "report_position env r' = Inr (la, lo) \<and> \<not> invalid_coordinates la lo
        \<and> report_cell env r' = Inr k
        \<and> (\<forall>t. new_Date env (timestamp r') \<noteq> Inr (Some t))"
  have "\<not> is_recent env r'"
  proof (cases "new_Date env (timestamp r')")
    case (Inl err)
    then show ?thesis by (simp add: is_recent_def)
  next
    case (Inr d)
    with a have "d = None" by (cases d) auto
    with Inr show ?thesis by (simp add: is_recent_def)
  qed
  with a show "process_user_report env g (Some r') =
          Inr (if Map_has g k then g else Map_set g k (user_report_marker la lo r'))"
    by (simp add: process_user_report_valid)
qed

theorem createUnifiedMarkerData_raises_only_on_unreadable_witness:
  "list_all (event_readable sample_env) [Some chennai_event, Some broken_event]
   \<and> list_all (report_readable sample_env) [Some broken_report, Some own_report_now]
   \<and> \<not> event_valid sample_env broken_event
   \<and> \<not> report_valid sample_env broken_report
   \<and> report_position sample_env undated_report = Inr (Fin (105 / 8), Fin (321 / 4))
   \<and> \<not> invalid_coordinates (Fin (105 / 8)) (Fin (321 / 4))
   \<and> report_cell sample_env undated_report = Inr ''13.125_80.250''
   \<and> new_Date sample_env (timestamp undated_report) = Inr None
   \<and> report_position sample_env unprintable_date_report = Inr (Fin (105 / 8), Fin (321 / 4))
   \<and> report_cell sample_env unprintable_date_report = Inr ''13.125_80.250''
   \<and> new_Date sample_env (timestamp unprintable_date_report) = Inl TypeError
   \<and> (\<exists>ms. createUnifiedMarkerData sample_env [Some chennai_event, Some broken_event]
              [Some broken_report, Some own_report_now] = Inr ms)
   \<and> createUnifiedMarkerData sample_env [Some chennai_event, Some broken_event]
         [Some own_report_now]
       = createUnifiedMarkerData sample_env [Some chennai_event] [Some own_report_now]
   \<and> createUnifiedMarkerData sample_env [Some chennai_event]
         [Some broken_report, Some own_report_now]
       = createUnifiedMarkerData sample_env [Some chennai_event] [Some own_report_now]
   \<and> process_user_report sample_env chennai_groups (Some undated_report) = Inr chennai_groups
   \<and> process_user_report sample_env chennai_groups (Some unprintable_date_report)
       = Inr chennai_groups"
proof -
  have h0: "list_all (event_readable sample_env) [Some chennai_event, Some broken_event]
            \<and> list_all (report_readable sample_env) [Some broken_report, Some own_report_now]
            \<and> event_readable sample_env (Some broken_event)
            \<and> report_readable sample_env (Some broken_report)"
    by code_simp
  have h1: "\<not> event_valid sample_env broken_event" by code_simp
  have h2: "\<not> report_valid sample_env broken_report" by code_simp
  have h3: "report_position sample_env undated_report = Inr (Fin (105 / 8), Fin (321 / 4))
            \<and> \<not> invalid_coordinates (Fin (105 / 8)) (Fin (321 / 4))
            \<and> report_cell sample_env undated_report = Inr ''13.125_80.250''
            \<and> new_Date sample_env (timestamp undated_report) = Inr None" by code_simp
  have h4: "report_position sample_env unprintable_date_report
              = Inr (Fin (105 / 8), Fin (321 / 4))
            \<and> report_cell sample_env unprintable_date_report = Inr ''13.125_80.250''
            \<and> new_Date sample_env (timestamp unprintable_date_report) = Inl TypeError"
    by code_simp
  have h5: "Map_has chennai_groups ''13.125_80.250''"
    by (simp add: Map_has_def chennai_groups_def)
  show ?thesis
    using h0 h1 h2 h3 h4 h5
      createUnifiedMarkerData_raises_only_on_unreadable [of sample_env
        "[Some chennai_event, Some broken_event]" "[Some broken_report, Some own_report_now]"
        broken_event "[Some chennai_event]" "[]" broken_report "[]" "[Some own_report_now]"
        undated_report "Fin (105 / 8)" "Fin (321 / 4)" "''13.125_80.250''" chennai_groups]
      createUnifiedMarkerData_raises_only_on_unreadable [of sample_env
        "[Some chennai_event]" "[Some own_report_now]"
        broken_event "[Some chennai_event]" "[]" broken_report "[]" "[Some own_report_now]"
        unprintable_date_report "Fin (105 / 8)" "Fin (321 / 4)" "''13.125_80.250''"
        chennai_groups]
    by simp
qed

text \<open>
  C9 as stated fails: an input array that holds \<open>null\<close>, and a hazard event whose
  latitude is the JSON object \<open>{"toString": 1}\<close>, make the call raise a
  \<open>TypeError\<close>.
\<close>

theorem malformed_input_raises_counterexample:
  "createUnifiedMarkerData sample_env [Some chennai_event, None] [] = Inl TypeError
   \<and> createUnifiedMarkerData sample_env [Some chennai_event] [None] = Inl TypeError
   \<and> centroid_lat unprintable_event = JObj None
   \<and> createUnifiedMarkerData sample_env [Some chennai_event, Some unprintable_event] []
       = Inl TypeError"
  by code_simp

lemma TimeClip_of_int:
  "\<bar>x\<bar> \<le> 8640000000000000 \<Longrightarrow> TimeClip (Fin (of_int x)) = Some x"
proof -
  assume a: "\<bar>x\<bar> \<le> 8640000000000000"
  have "\<bar>(of_int x :: rat)\<bar> = of_int \<bar>x\<bar>" by simp
  also have "\<dots> \<le> of_int 8640000000000000" using a by (simp only: of_int_le_iff)
  finally have "\<not> 8640000000000000 < \<bar>(of_int x :: rat)\<bar>" by simp
  then show ?thesis by (simp add: TimeClip_def)
qed

lemma date_gt_Some:
  "date_gt d (Some b) \<longleftrightarrow> (\<exists>t. d = Some t \<and> b < t)"
  by (cases d) simp_all

lemma is_recent_iff:
  assumes "1860000 \<le> now env" and "now env \<le> 8640000000000000"
  shows "is_recent env r
           \<longleftrightarrow> (\<exists>t. new_Date env (timestamp r) = Inr (Some t) \<and> now env - 1800000 < t)"
proof -
  have ago: "TimeClip (Fin (of_int (now env) - 1800000)) = Some (now env - 1800000)"
    using assms TimeClip_of_int [of "now env - 1800000"] by simp
  show ?thesis
    by (cases "new_Date env (timestamp r)") (simp_all add: is_recent_def ago date_gt_Some)
qed

text \<open>
  C2, as the code has it. A valid report falls into a cell that a hazard-event marker
  occupies; the clock is a time value a \<open>Date\<close> can hold. Then the occupant is
  replaced, by the priority-9 marker of the report, exactly when the report is the
  user's own submission and its timestamp is a valid date later than 30 minutes before
  the clock reading; there is no upper bound, so a timestamp after the clock reading
  counts as recent. Otherwise the map is left as it is. In particular an own report
  whose timestamp is the clock reading replaces the hazard marker, and a report dated
  31 minutes earlier, or one that is not the user's own, does not.
\<close>

theorem recent_own_submission_replaces_hazard:
  assumes valid: "report_valid env r" and cell: "report_cell env r = Inr k"
    and occupied: "map_of g k = Some h" and hazard: "type h = Hazard_event"
    and clock: "1860000 \<le> now env" "now env \<le> 8640000000000000"
  shows "process_user_report env g (Some r) =
           Inr (if truthy (isUserSubmission r)
                   \<and> (\<exists>t. new_Date env (timestamp r) = Inr (Some t) \<and> now env - 1800000 < t)
                then Map_set g k (recent_submission_marker r) else g)
         \<and> map_of (Map_set g k (recent_submission_marker r)) k = Some (recent_submission_marker r)
         \<and> priority (recent_submission_marker r) = 9
         \<and> map_of g k \<noteq> Some (recent_submission_marker r)
         \<and> (truthy (isUserSubmission r) \<and> new_Date env (timestamp r) = Inr (Some (now env))
              \<longrightarrow> process_user_report env g (Some r)
                    = Inr (Map_set g k (recent_submission_marker r)))
         \<and> (new_Date env (timestamp r) = Inr (Some (now env - 31 * 60 * 1000))
              \<longrightarrow> process_user_report env g (Some r) = Inr g)
         \<and> (\<not> truthy (isUserSubmission r) \<longrightarrow> process_user_report env g (Some r) = Inr g)"
proof -
  have has: "Map_has g k" using occupied by (simp add: Map_has_def)
  from valid obtain la lo where p: "report_position env r = Inr (la, lo)"
    and v: "\<not> invalid_coordinates la lo"
    unfolding report_valid_def by (rule valid_positionE)
  have main: "process_user_report env g (Some r) =
           Inr (if truthy (isUserSubmission r)
                   \<and> (\<exists>t. new_Date env (timestamp r) = Inr (Some t) \<and> now env - 1800000 < t)
                then Map_set g k (recent_submission_marker r) else g)"
    using has by (simp add: process_user_report_valid [OF p v cell] is_recent_iff [OF clock])
  have differs: "map_of g k \<noteq> Some (recent_submission_marker r)"
    using occupied hazard by (auto simp: recent_submission_marker_def)
  show ?thesis
    using main differs
    by (auto simp: map_of_Map_set recent_submission_marker_def)
qed

theorem recent_own_submission_replaces_hazard_witness:
  "report_valid sample_env own_report_now
   \<and> report_cell sample_env own_report_now = Inr ''13.125_80.250''
   \<and> report_valid sample_env own_report_old
   \<and> report_cell sample_env own_report_old = Inr ''13.125_80.250''
   \<and> report_valid sample_env citizen_report_now
   \<and> report_cell sample_env citizen_report_now = Inr ''13.125_80.250''
   \<and> report_valid sample_env own_report_future
   \<and> report_cell sample_env own_report_future = Inr ''13.125_80.250''
   \<and> map_of chennai_groups ''13.125_80.250''
       = Some (hazard_event_marker (Fin (105 / 8)) (Fin (321 / 4)) chennai_event)
   \<and> type (hazard_event_marker (Fin (105 / 8)) (Fin (321 / 4)) chennai_event) = Hazard_event
   \<and> 1860000 \<le> now sample_env \<and> now sample_env \<le> 8640000000000000
   \<and> truthy (isUserSubmission own_report_now)
   \<and> new_Date sample_env (timestamp own_report_now) = Inr (Some (now sample_env))
   \<and> new_Date sample_env (timestamp own_report_old)
       = Inr (Some (now sample_env - 31 * 60 * 1000))
   \<and> \<not> truthy (isUserSubmission citizen_report_now)
   \<and> truthy (isUserSubmission own_report_future)
   \<and> new_Date sample_env (timestamp own_report_future) = Inr (Some 1700003600000)
   \<and> now sample_env - 1800000 < 1700003600000
   \<and> process_user_report sample_env chennai_groups (Some own_report_now)
       = Inr [(''13.125_80.250'', recent_submission_marker own_report_now)]
   \<and> process_user_report sample_env chennai_groups (Some own_report_old) = Inr chennai_groups
   \<and> process_user_report sample_env chennai_groups (Some citizen_report_now)
       = Inr chennai_groups
   \<and> process_user_report sample_env chennai_groups (Some own_report_future)
       = Inr [(''13.125_80.250'', recent_submission_marker own_report_future)]"
proof -
  have h1: "report_valid sample_env own_report_now
            \<and> report_cell sample_env own_report_now = Inr ''13.125_80.250''" by code_simp
  have h1': "report_valid sample_env own_report_old
            \<and> report_cell sample_env own_report_old = Inr ''13.125_80.250''" by code_simp
  have h1'': "report_valid sample_env citizen_report_now
            \<and> report_cell sample_env citizen_report_now = Inr ''13.125_80.250''" by code_simp
  have h1''': "report_valid sample_env own_report_future
            \<and> report_cell sample_env own_report_future = Inr ''13.125_80.250''" by code_simp
  have h2: "map_of chennai_groups ''13.125_80.250''
              = Some (hazard_event_marker (Fin (105 / 8)) (Fin (321 / 4)) chennai_event)"
    by (simp add: chennai_groups_def)
  have h3: "type (hazard_event_marker (Fin (105 / 8)) (Fin (321 / 4)) chennai_event)
              = Hazard_event"
    by (simp add: hazard_event_marker_def)
  have h4: "1860000 \<le> now sample_env \<and> now sample_env \<le> 8640000000000000"
    by (simp add: sample_env_def)
  have h5: "truthy (isUserSubmission own_report_now)
            \<and> new_Date sample_env (timestamp own_report_now) = Inr (Some (now sample_env))
            \<and> new_Date sample_env (timestamp own_report_old)
                = Inr (Some (now sample_env - 31 * 60 * 1000))
            \<and> \<not> truthy (isUserSubmission citizen_report_now)
            \<and> truthy (isUserSubmission own_report_future)
            \<and> new_Date sample_env (timestamp own_report_future) = Inr (Some 1700003600000)"
    by (simp add: own_report_now_def own_report_old_def citizen_report_now_def
                  own_report_future_def sample_env_def)
  have h6: "now sample_env - 1800000 < 1700003600000" by (simp add: sample_env_def)
  have h7: "Map_set chennai_groups ''13.125_80.250'' m = [(''13.125_80.250'', m)]" for m
    by (simp add: chennai_groups_def)
  show ?thesis
    using h1 h1' h1'' h1''' h2 h3 h4 h5 h6 h7
      recent_own_submission_replaces_hazard [of sample_env own_report_now
        "''13.125_80.250''" chennai_groups
        "hazard_event_marker (Fin (105 / 8)) (Fin (321 / 4)) chennai_event"]
      recent_own_submission_replaces_hazard [of sample_env own_report_old
        "''13.125_80.250''" chennai_groups
        "hazard_event_marker (Fin (105 / 8)) (Fin (321 / 4)) chennai_event"]
      recent_own_submission_replaces_hazard [of sample_env citizen_report_now
        "''13.125_80.250''" chennai_groups
        "hazard_event_marker (Fin (105 / 8)) (Fin (321 / 4)) chennai_event"]
      recent_own_submission_replaces_hazard [of sample_env own_report_future
        "''13.125_80.250''" chennai_groups
        "hazard_event_marker (Fin (105 / 8)) (Fin (321 / 4)) chennai_event"]
    by simp
qed

text \<open>
  C2 as stated fails: an own report dated one hour after the clock reading is not
  within the last 30 minutes of processing time, yet it replaces the hazard marker of
  its cell, and the call returns the report's marker with priority 9.
\<close>

theorem future_report_counterexample:
  "now sample_env = 1700000000000
   \<and> truthy (isUserSubmission own_report_future)
   \<and> new_Date sample_env (timestamp own_report_future) = Inr (Some 1700003600000)
   \<and> event_cell sample_env chennai_event = report_cell sample_env own_report_future
   \<and> map_sum id (map data)
        (createUnifiedMarkerData sample_env [Some chennai_event] [Some own_report_future])
       = Inr [Report own_report_future]
   \<and> map_sum id (map priority)
        (createUnifiedMarkerData sample_env [Some chennai_event] [Some own_report_future])
       = Inr [9]"
  by code_simp

lemma zero_not_valid:
  "la = Fin 0 \<or> lo = Fin 0 \<Longrightarrow> invalid_coordinates la lo"
  by (auto simp: invalid_coordinates_def)

text \<open>
  C5 (zero is treated as absent). A hazard event or a user report whose coordinates
  both parse and one of them to exactly 0 fails the guard: the loop body leaves the map
  as it is, and no marker of the list the call returns comes from that record.
\<close>

theorem zero_coordinate_is_skipped:
  "(parseFloat env (centroid_lat e) = Inr la \<and> parseFloat env (centroid_lon e) = Inr lo
      \<and> (la = Fin 0 \<or> lo = Fin 0) \<longrightarrow>
      process_hazard_event env g (Some e) = Inr g
      \<and> (list_all (event_readable env) hs \<and> list_all (report_readable env) rs \<longrightarrow>
           (\<exists>ms. createUnifiedMarkerData env hs rs = Inr ms \<and> Event e \<notin> data ` set ms)))
   \<and> (parseFloat env (report_lat r) = Inr la' \<and> parseFloat env (report_lon r) = Inr lo'
      \<and> (la' = Fin 0 \<or> lo' = Fin 0) \<longrightarrow>
      process_user_report env g (Some r) = Inr g
      \<and> (list_all (event_readable env) hs \<and> list_all (report_readable env) rs \<longrightarrow>
           (\<exists>ms. createUnifiedMarkerData env hs rs = Inr ms \<and> Report r \<notin> data ` set ms)))"
proof (intro conjI impI)
  assume z: "parseFloat env (centroid_lat e) = Inr la \<and> parseFloat env (centroid_lon e) = Inr lo
      \<and> (la = Fin 0 \<or> lo = Fin 0)"
  then have p: "event_position env e = Inr (la, lo)"
    by (simp add: event_position_def parsed_pair_Inr)
  from z have inv: "invalid_coordinates la lo" using zero_not_valid by blast
  show "process_hazard_event env g (Some e) = Inr g"
    by (rule process_hazard_event_invalid [OF p inv])
  assume "list_all (event_readable env) hs \<and> list_all (report_readable env) rs"
  then obtain ms where ms: "createUnifiedMarkerData env hs rs = Inr ms"
    by (blast elim: unified_returns)
  have "Event e \<notin> data ` set ms"
  proof
    assume "Event e \<in> data ` set ms"
    then obtain m where m: "m \<in> set ms" "data m = Event e" by auto
    from unified_marker_ok [OF ms m(1)] obtain k where "marker_ok env k m" by blast
    with m(2) p inv show False by (auto elim: marker_ok_EventD)
  qed
  with ms show "\<exists>ms. createUnifiedMarkerData env hs rs = Inr ms \<and> Event e \<notin> data ` set ms"
    by blast
next
  assume z: "parseFloat env (report_lat r) = Inr la' \<and> parseFloat env (report_lon r) = Inr lo'
      \<and> (la' = Fin 0 \<or> lo' = Fin 0)"
  then have p: "report_position env r = Inr (la', lo')"
    by (simp add: report_position_def parsed_pair_Inr)
  from z have inv: "invalid_coordinates la' lo'" using zero_not_valid by blast
  show "process_user_report env g (Some r) = Inr g"
    by (rule process_user_report_invalid [OF p inv])
  assume "list_all (event_readable env) hs \<and> list_all (report_readable env) rs"
  then obtain ms where ms: "createUnifiedMarkerData env hs rs = Inr ms"
    by (blast elim: unified_returns)
  have "Report r \<notin> data ` set ms"
  proof
    assume "Report r \<in> data ` set ms"
    then obtain m where m: "m \<in> set ms" "data m = Report r" by auto
    from unified_marker_ok [OF ms m(1)] obtain k where "marker_ok env k m" by blast
    with m(2) p inv show False by (auto elim: marker_ok_ReportD)
  qed
  with ms show "\<exists>ms. createUnifiedMarkerData env hs rs = Inr ms \<and> Report r \<notin> data ` set ms"
    by blast
qed

theorem zero_coordinate_is_skipped_witness:
  "parseFloat sample_env (centroid_lat equator_event) = Inr (Fin 0)
   \<and> parseFloat sample_env (centroid_lon equator_event) = Inr (Fin (321 / 4))
   \<and> parseFloat sample_env (report_lat meridian_report) = Inr (Fin (103 / 2))
   \<and> parseFloat sample_env (report_lon meridian_report) = Inr (Fin 0)
   \<and> list_all (event_readable sample_env) [Some equator_event]
   \<and> list_all (report_readable sample_env) [Some meridian_report]
   \<and> process_hazard_event sample_env chennai_groups (Some equator_event) = Inr chennai_groups
   \<and> process_user_report sample_env chennai_groups (Some meridian_report) = Inr chennai_groups
   \<and> createUnifiedMarkerData sample_env [Some equator_event] [Some meridian_report] = Inr []"
proof -
  have h1: "parseFloat sample_env (centroid_lat equator_event) = Inr (Fin 0)
            \<and> parseFloat sample_env (centroid_lon equator_event) = Inr (Fin (321 / 4))"
    by code_simp
  have h2: "parseFloat sample_env (report_lat meridian_report) = Inr (Fin (103 / 2))
            \<and> parseFloat sample_env (report_lon meridian_report) = Inr (Fin 0)"
    by code_simp
  have h3: "list_all (event_readable sample_env) [Some equator_event]
            \<and> list_all (report_readable sample_env) [Some meridian_report]"
    by code_simp
  have h4: "createUnifiedMarkerData sample_env [Some equator_event] [Some meridian_report]
              = Inr []"
    by code_simp
  show ?thesis
    using h1 h2 h3 h4
      zero_coordinate_is_skipped [of sample_env equator_event "Fin 0" "Fin (321 / 4)"
        chennai_groups "[Some equator_event]" "[Some meridian_report]" meridian_report
        "Fin (103 / 2)" "Fin 0"]
    by simp
qed

text \<open>
  C4, as the code has it (the fallback is \<open>||\<close>, not \<open>??\<close>). The confidence of a
  returned marker is the confidence field of its source record whenever that field is
  truthy; a falsy field (missing or \<open>null\<close>, and also 0, \<open>NaN\<close>, \<open>false\<close> and the
  empty string) gives the default, 0.5 for a hazard event and 0.3 for a user report.
\<close>

theorem confidence_falls_back_on_falsy:
  assumes "list_all (event_readable env) hs" and "list_all (report_readable env) rs"
  shows "\<exists>ms. createUnifiedMarkerData env hs rs = Inr ms
        \<and> (\<forall>m \<in> set ms.
              confidence m =
                (case data m of
                   Event e \<Rightarrow> if truthy (event_confidence e) then event_confidence e
                              else JNum (Fin (1 / 2))
                 | Report r \<Rightarrow> if truthy (report_confidence r) then report_confidence r
                               else JNum (Fin (3 / 10))))"
proof -
  from assms obtain ms where ms: "createUnifiedMarkerData env hs rs = Inr ms"
    by (rule unified_returns)
  have "confidence m =
          (case data m of
             Event e \<Rightarrow> if truthy (event_confidence e) then event_confidence e
                        else JNum (Fin (1 / 2))
           | Report r \<Rightarrow> if truthy (report_confidence r) then report_confidence r
                         else JNum (Fin (3 / 10)))"
    if "m \<in> set ms" for m
  proof -
    from unified_marker_ok [OF ms that] obtain k where ok: "marker_ok env k m" by blast
    show ?thesis
    proof (cases "data m")
      case (Event e)
      from marker_ok_EventD [OF ok Event] obtain la lo where
        "m = hazard_event_marker la lo e"
        by blast
      then have "confidence m = js_or (event_confidence e) (JNum (Fin (1 / 2)))"
        by (simp add: hazard_event_marker_def)
      with Event show ?thesis by (simp add: js_or_def)
    next
      case (Report r)
      from marker_ok_ReportD [OF ok Report] obtain la lo where
        "m = user_report_marker la lo r \<or> m = recent_submission_marker r"
        by blast
      then have "confidence m = js_or (report_confidence r) (JNum (Fin (3 / 10)))"
        by (auto simp: user_report_marker_def recent_submission_marker_def)
      with Report show ?thesis by (simp add: js_or_def)
    qed
  qed
  with ms show ?thesis by blast
qed

theorem confidence_falls_back_on_falsy_witness:
  "list_all (event_readable sample_env) [Some chennai_event, Some unscored_event]
   \<and> list_all (report_readable sample_env) [Some unscored_report]
   \<and> createUnifiedMarkerData sample_env [Some chennai_event, Some unscored_event]
        [Some unscored_report]
     = Inr [hazard_event_marker (Fin (105 / 8)) (Fin (321 / 4)) chennai_event,
            hazard_event_marker (Fin (25 / 2)) (Fin (321 / 4)) unscored_event,
            user_report_marker (Fin (23 / 2)) (Fin (321 / 4)) unscored_report]
   \<and> map confidence
        [hazard_event_marker (Fin (105 / 8)) (Fin (321 / 4)) chennai_event,
         hazard_event_marker (Fin (25 / 2)) (Fin (321 / 4)) unscored_event,
         user_report_marker (Fin (23 / 2)) (Fin (321 / 4)) unscored_report]
       = [JNum (Fin (3 / 4)), JNum (Fin (1 / 2)), JNum (Fin (3 / 10))]"
proof -
  have h0: "list_all (event_readable sample_env) [Some chennai_event, Some unscored_event]"
    by code_simp
  have h0': "list_all (report_readable sample_env) [Some unscored_report]"
    by code_simp
  have ev: "createUnifiedMarkerData sample_env [Some chennai_event, Some unscored_event]
        [Some unscored_report]
     = Inr [hazard_event_marker (Fin (105 / 8)) (Fin (321 / 4)) chennai_event,
            hazard_event_marker (Fin (25 / 2)) (Fin (321 / 4)) unscored_event,
            user_report_marker (Fin (23 / 2)) (Fin (321 / 4)) unscored_report]"
    by code_simp
  have d: "data (hazard_event_marker (Fin (105 / 8)) (Fin (321 / 4)) chennai_event)
             = Event chennai_event
           \<and> data (hazard_event_marker (Fin (25 / 2)) (Fin (321 / 4)) unscored_event)
             = Event unscored_event
           \<and> data (user_report_marker (Fin (23 / 2)) (Fin (321 / 4)) unscored_report)
             = Report unscored_report"
    by (simp add: hazard_event_marker_def user_report_marker_def)
  have c: "event_confidence chennai_event = JNum (Fin (3 / 4))
           \<and> event_confidence unscored_event = JNum (Fin 0)
           \<and> report_confidence unscored_report = JNum (Fin 0)"
    by (simp add: chennai_event_def unscored_event_def unscored_report_def)
  show ?thesis
    using h0 h0' ev d c confidence_falls_back_on_falsy [OF h0 h0']
    by simp
qed

text \<open>
  C4 as stated fails: a hazard event and a user report whose confidence field is
  present and exactly 0 come out with the defaults 0.5 and 0.3.
\<close>

theorem confidence_zero_counterexample:
  "event_confidence unscored_event = JNum (Fin 0)
   \<and> report_confidence unscored_report = JNum (Fin 0)
   \<and> map_sum id (map confidence)
        (createUnifiedMarkerData sample_env [Some unscored_event] [Some unscored_report])
       = Inr [JNum (Fin (1 / 2)), JNum (Fin (3 / 10))]"
  by code_simp

text \<open>
  C10 (the replacing marker keeps the raw coordinates). When a recent own submission
  replaces the occupant of its cell, the stored marker has priority 9 and its
  \<open>lat\<close> and \<open>lon\<close> are the report's fields as they arrived, a string staying a
  string. The two inserting branches store the parsed numbers. So in the returned list
  a priority-9 report marker carries the raw fields and every other marker numbers.
\<close>

theorem recent_marker_keeps_raw_coordinates:
  "(report_position env r = Inr (la, lo) \<and> \<not> invalid_coordinates la lo
      \<and> report_cell env r = Inr k \<and> Map_has g k
      \<and> truthy (isUserSubmission r)
      \<and> new_Date env (timestamp r) = Inr d
      \<and> date_gt d (TimeClip (Fin (of_int (now env - 30 * 60 * 1000)))) \<longrightarrow>
      (\<exists>m. process_user_report env g (Some r) = Inr (Map_set g k m) \<and> priority m = 9
           \<and> lat m = report_lat r \<and> lon m = report_lon r))
   \<and> (report_position env r = Inr (la, lo) \<and> \<not> invalid_coordinates la lo
      \<and> report_cell env r = Inr k \<and> \<not> Map_has g k \<longrightarrow>
      (\<exists>m. process_user_report env g (Some r) = Inr (Map_set g k m)
           \<and> lat m = JNum la \<and> lon m = JNum lo))
   \<and> (event_position env e = Inr (la', lo') \<and> \<not> invalid_coordinates la' lo'
      \<and> event_cell env e = Inr k' \<and> \<not> Map_has g k' \<longrightarrow>
      (\<exists>m. process_hazard_event env g (Some e) = Inr (Map_set g k' m)
           \<and> lat m = JNum la' \<and> lon m = JNum lo'))
   \<and> (list_all (event_readable env) hs \<and> list_all (report_readable env) rs \<longrightarrow>
      (\<exists>ms. createUnifiedMarkerData env hs rs = Inr ms
          \<and> (\<forall>m \<in> set ms.
                case data m of
                  Event e' \<Rightarrow>
                    event_position env e' = parsed_pair env (lat m) (lon m)
                    \<and> (\<exists>x y. lat m = JNum x \<and> lon m = JNum y)
                | Report r' \<Rightarrow>
                    if priority m = 9
                    then lat m = report_lat r' \<and> lon m = report_lon r'
                    else report_position env r' = parsed_pair env (lat m) (lon m)
                         \<and> (\<exists>x y. lat m = JNum x \<and> lon m = JNum y))))"
proof (intro conjI impI)
  assume a: "report_position env r = Inr (la, lo) \<and> \<not> invalid_coordinates la lo
      \<and> report_cell env r = Inr k \<and> Map_has g k
      \<and> truthy (isUserSubmission r)
      \<and> new_Date env (timestamp r) = Inr d
      \<and> date_gt d (TimeClip (Fin (of_int (now env - 30 * 60 * 1000))))"
  then have "is_recent env r" by (simp add: is_recent_def)
  with a have "process_user_report env g (Some r)
                 = Inr (Map_set g k (recent_submission_marker r))"
    by (simp add: process_user_report_valid)
  then show "\<exists>m. process_user_report env g (Some r) = Inr (Map_set g k m) \<and> priority m = 9
           \<and> lat m = report_lat r \<and> lon m = report_lon r"
    by (auto simp: recent_submission_marker_def)
next
  assume "report_position env r = Inr (la, lo) \<and> \<not> invalid_coordinates la lo
      \<and> report_cell env r = Inr k \<and> \<not> Map_has g k"
  then have "process_user_report env g (Some r) =
               Inr (Map_set g k (user_report_marker la lo r))"
    by (simp add: process_user_report_valid)
  then show "\<exists>m. process_user_report env g (Some r) = Inr (Map_set g k m)
           \<and> lat m = JNum la \<and> lon m = JNum lo"
    by (auto simp: user_report_marker_def)
next
  assume "event_position env e = Inr (la', lo') \<and> \<not> invalid_coordinates la' lo'
      \<and> event_cell env e = Inr k' \<and> \<not> Map_has g k'"
  then have "process_hazard_event env g (Some e) =
               Inr (Map_set g k' (hazard_event_marker la' lo' e))"
    by (simp add: process_hazard_event_valid)
  then show "\<exists>m. process_hazard_event env g (Some e) = Inr (Map_set g k' m)
           \<and> lat m = JNum la' \<and> lon m = JNum lo'"
    by (auto simp: hazard_event_marker_def)
next
  assume "list_all (event_readable env) hs \<and> list_all (report_readable env) rs"
  then obtain ms where ms: "createUnifiedMarkerData env hs rs = Inr ms"
    by (blast elim: unified_returns)
  have "case data m of
          Event e' \<Rightarrow>
            event_position env e' = parsed_pair env (lat m) (lon m)
            \<and> (\<exists>x y. lat m = JNum x \<and> lon m = JNum y)
        | Report r' \<Rightarrow>
            if priority m = 9
            then lat m = report_lat r' \<and> lon m = report_lon r'
            else report_position env r' = parsed_pair env (lat m) (lon m)
                 \<and> (\<exists>x y. lat m = JNum x \<and> lon m = JNum y)"
    if "m \<in> set ms" for m
  proof -
    from unified_marker_ok [OF ms that] obtain c where ok: "marker_ok env c m" by blast
    show ?thesis
    proof (cases "data m")
      case (Event e')
      from marker_ok_EventD [OF ok Event] obtain x y where
        "event_position env e' = Inr (x, y)" "m = hazard_event_marker x y e'"
        by blast
      then have "event_position env e' = parsed_pair env (lat m) (lon m)
                 \<and> (\<exists>x y. lat m = JNum x \<and> lon m = JNum y)"
        by (simp add: hazard_event_marker_def parsed_pair_numbers)
      with Event show ?thesis by simp
    next
      case (Report r')
      from marker_ok_ReportD [OF ok Report] obtain x y where
        "report_position env r' = Inr (x, y)"
        "m = user_report_marker x y r' \<or> m = recent_submission_marker r'"
        by blast
      then have "if priority m = 9
            then lat m = report_lat r' \<and> lon m = report_lon r'
            else report_position env r' = parsed_pair env (lat m) (lon m)
                 \<and> (\<exists>x y. lat m = JNum x \<and> lon m = JNum y)"
        by (auto simp: user_report_marker_def recent_submission_marker_def
                       parsed_pair_numbers split: if_splits)
      with Report show ?thesis by simp
    qed
  qed
  with ms show "\<exists>ms. createUnifiedMarkerData env hs rs = Inr ms
          \<and> (\<forall>m \<in> set ms.
                case data m of
                  Event e' \<Rightarrow>
                    event_position env e' = parsed_pair env (lat m) (lon m)
                    \<and> (\<exists>x y. lat m = JNum x \<and> lon m = JNum y)
                | Report r' \<Rightarrow>
                    if priority m = 9
                    then lat m = report_lat r' \<and> lon m = report_lon r'
                    else report_position env r' = parsed_pair env (lat m) (lon m)
                         \<and> (\<exists>x y. lat m = JNum x \<and> lon m = JNum y))"
    by blast
qed

theorem recent_marker_keeps_raw_coordinates_witness:
  "report_position sample_env own_report_now = Inr (Fin (105 / 8), Fin (321 / 4))
   \<and> \<not> invalid_coordinates (Fin (105 / 8)) (Fin (321 / 4))
   \<and> report_cell sample_env own_report_now = Inr ''13.125_80.250''
   \<and> Map_has chennai_groups ''13.125_80.250'' \<and> \<not> Map_has [] ''13.125_80.250''
   \<and> truthy (isUserSubmission own_report_now)
   \<and> new_Date sample_env (timestamp own_report_now) = Inr (Some 1700000000000)
   \<and> date_gt (Some 1700000000000)
        (TimeClip (Fin (of_int (now sample_env - 30 * 60 * 1000))))
   \<and> event_position sample_env chennai_event = Inr (Fin (105 / 8), Fin (321 / 4))
   \<and> event_cell sample_env chennai_event = Inr ''13.125_80.250''
   \<and> list_all (event_readable sample_env) [Some chennai_event]
   \<and> list_all (report_readable sample_env) [Some own_report_now]
   \<and> report_lat own_report_now = JStr ''13.125'' \<and> report_lon own_report_now = JStr ''80.25''
   \<and> createUnifiedMarkerData sample_env [Some chennai_event] [Some own_report_now]
       = Inr [\<lparr>type = User_report, lat = JStr ''13.125'', lon = JStr ''80.25'',
               data = Report own_report_now, priority = 9,
               confidence = JNum (Fin (3 / 10))\<rparr>]
   \<and> createUnifiedMarkerData sample_env [] [Some own_report_now]
       = Inr [\<lparr>type = User_report, lat = JNum (Fin (105 / 8)), lon = JNum (Fin (321 / 4)),
               data = Report own_report_now, priority = 8,
               confidence = JNum (Fin (3 / 10))\<rparr>]"
proof -
  have h1: "report_position sample_env own_report_now = Inr (Fin (105 / 8), Fin (321 / 4))
            \<and> \<not> invalid_coordinates (Fin (105 / 8)) (Fin (321 / 4))
            \<and> report_cell sample_env own_report_now = Inr ''13.125_80.250''
            \<and> truthy (isUserSubmission own_report_now)
            \<and> new_Date sample_env (timestamp own_report_now) = Inr (Some 1700000000000)
            \<and> date_gt (Some 1700000000000)
                 (TimeClip (Fin (of_int (now sample_env - 30 * 60 * 1000))))
            \<and> event_position sample_env chennai_event = Inr (Fin (105 / 8), Fin (321 / 4))
            \<and> event_cell sample_env chennai_event = Inr ''13.125_80.250''
            \<and> list_all (event_readable sample_env) [Some chennai_event]
            \<and> list_all (report_readable sample_env) [Some own_report_now]"
    by code_simp
  have h2: "Map_has chennai_groups ''13.125_80.250'' \<and> \<not> Map_has [] ''13.125_80.250''"
    by (simp add: Map_has_def chennai_groups_def)
  have h3: "report_lat own_report_now = JStr ''13.125''
            \<and> report_lon own_report_now = JStr ''80.25''"
    by (simp add: own_report_now_def)
  have h4: "createUnifiedMarkerData sample_env [Some chennai_event] [Some own_report_now]
       = Inr [\<lparr>type = User_report, lat = JStr ''13.125'', lon = JStr ''80.25'',
               data = Report own_report_now, priority = 9,
               confidence = JNum (Fin (3 / 10))\<rparr>]"
    by code_simp
  have h5: "createUnifiedMarkerData sample_env [] [Some own_report_now]
       = Inr [\<lparr>type = User_report, lat = JNum (Fin (105 / 8)), lon = JNum (Fin (321 / 4)),
               data = Report own_report_now, priority = 8,
               confidence = JNum (Fin (3 / 10))\<rparr>]"
    by code_simp
  show ?thesis
    using h1 h2 h3 h4 h5
      recent_marker_keeps_raw_coordinates [of sample_env own_report_now
        "Fin (105 / 8)" "Fin (321 / 4)" "''13.125_80.250''"
        chennai_groups "Some 1700000000000" chennai_event
        "Fin (105 / 8)" "Fin (321 / 4)" "''13.125_80.250''"
        "[Some chennai_event]" "[Some own_report_now]"]
    by simp
qed

text \<open>A stable sort of equal keys changes nothing; fresh cells append.\<close>

lemma sort_key_all_equal:
  assumes "\<forall>x \<in> set xs. f x = c"
  shows "sort_key f xs = xs"
proof -
  have "filter (\<lambda>y. f y = c) (sort_key f xs) = sort_key f xs"
    using assms by (simp add: filter_id_conv)
  moreover have "filter (\<lambda>y. f y = c) xs = xs"
    using assms by (simp add: filter_id_conv)
  ultimately show ?thesis using sort_key_stable [of f c xs] by simp
qed

lemma Map_set_fresh: "k \<notin> fst ` set g \<Longrightarrow> Map_set g k v = g @ [(k, v)]"
  by (induction g) auto

lemma process_hazard_event_fresh:
  assumes "event_valid env e" and "event_cell env e = Inr k" and "k \<notin> fst ` set g"
  shows "\<exists>m. process_hazard_event env g (Some e) = Inr (g @ [(k, m)])
             \<and> data m = Event e \<and> priority m = 10"
proof -
  from assms(1) obtain la lo where p: "event_position env e = Inr (la, lo)"
    and v: "\<not> invalid_coordinates la lo"
    unfolding event_valid_def by (rule valid_positionE)
  have "process_hazard_event env g (Some e) = Inr (g @ [(k, hazard_event_marker la lo e)])"
    using assms(3)
    by (simp add: process_hazard_event_valid [OF p v assms(2)] Map_has_iff Map_set_fresh)
  then show ?thesis by (auto simp: hazard_event_marker_def)
qed

lemma forEach_hazard_fresh:
  assumes "\<forall>e \<in> set hs. event_valid env e"
    and "distinct (map (event_cell env) hs)"
    and "\<forall>e \<in> set hs. \<forall>k. event_cell env e = Inr k \<longrightarrow> k \<notin> fst ` set g"
  shows "\<exists>g'. forEach (process_hazard_event env) (map Some hs) g = Inr g'
              \<and> map (data \<circ> snd) g' = map (data \<circ> snd) g @ map Event hs
              \<and> map (priority \<circ> snd) g' = map (priority \<circ> snd) g @ map (\<lambda>e. 10) hs"
  using assms
proof (induction hs arbitrary: g)
  case Nil
  then show ?case by simp
next
  case (Cons e hs)
  have valid: "event_valid env e" using Cons.prems(1) by simp
  then obtain la lo where "event_position env e = Inr (la, lo)"
    unfolding event_valid_def by (rule valid_positionE)
  then obtain k where k: "event_cell env e = Inr k"
    using cell_of_position_Inr [of env la lo] by (auto simp: event_cell_def)
  have fresh: "k \<notin> fst ` set g" using Cons.prems(3) k by simp
  from process_hazard_event_fresh [OF valid k fresh] obtain m
    where step: "process_hazard_event env g (Some e) = Inr (g @ [(k, m)])"
      and m: "data m = Event e" "priority m = 10"
    by blast
  have p3: "\<forall>e' \<in> set hs. \<forall>k'. event_cell env e' = Inr k' \<longrightarrow> k' \<notin> fst ` set (g @ [(k, m)])"
  proof (intro ballI allI impI)
    fix e' k' assume e': "e' \<in> set hs" and k': "event_cell env e' = Inr k'"
    have "event_cell env e' \<noteq> Inr k" using Cons.prems(2) e' k by force
    with k' have "k' \<noteq> k" by auto
    moreover have "k' \<notin> fst ` set g" using Cons.prems(3) e' k' by simp
    ultimately show "k' \<notin> fst ` set (g @ [(k, m)])" by auto
  qed
  have p1: "\<forall>e' \<in> set hs. event_valid env e'" using Cons.prems(1) by simp
  have p2: "distinct (map (event_cell env) hs)" using Cons.prems(2) by simp
  from Cons.IH [OF p1 p2 p3] show ?case
    by (simp add: step m)
qed

text \<open>
  C3, as the code has it. Sixty valid hazard events in sixty different cells and no
  user reports: the call returns exactly 50 markers, all of priority 10, and they are
  the markers of the first 50 events of the input, in input order (the stable sort
  leaves the tie in insertion order and \<open>slice(0, 50)\<close> keeps the head).
\<close>

theorem first_fifty_of_sixty_hazards:
  assumes "\<forall>e \<in> set hs. event_valid env e"
    and "distinct (map (event_cell env) hs)"
    and "length hs = 60"
  shows "\<exists>ms. createUnifiedMarkerData env (map Some hs) [] = Inr ms \<and> length ms = 50
              \<and> map data ms = map Event (take 50 hs)
              \<and> map priority ms = replicate 50 10"
proof -
  from forEach_hazard_fresh [OF assms(1,2), of "[]"] obtain g
    where g: "forEach (process_hazard_event env) (map Some hs) [] = Inr g"
      and f: "map (data \<circ> snd) g = map Event hs"
             "map (priority \<circ> snd) g = map (\<lambda>e. 10) hs"
    by auto
  have all10: "\<forall>m \<in> set (Map_values g). - priority m = - 10"
  proof -
    have "set (map priority (Map_values g)) \<subseteq> {10}"
      using f by (auto simp: Map_values_def)
    then show ?thesis by auto
  qed
  have sorted_same: "sort_by_priority (Map_values g) = Map_values g"
    unfolding sort_by_priority_def by (rule sort_key_all_equal [OF all10])
  let ?ms = "take 50 (Map_values g)"
  have r: "createUnifiedMarkerData env (map Some hs) [] = Inr ?ms"
    by (simp add: createUnifiedMarkerData_def g sorted_same)
  have len: "length (Map_values g) = 60"
    using f assms(3) by (metis length_map Map_values_def)
  have d: "map data ?ms = map Event (take 50 hs)"
    using f by (simp add: Map_values_def take_map [symmetric])
  have "map priority ?ms = take 50 (map (\<lambda>e. 10) hs)"
    using f by (simp add: Map_values_def take_map [symmetric])
  then have p: "map priority ?ms = replicate 50 10"
    using assms(3) by (simp add: map_replicate_const)
  from r len d p show ?thesis by simp
qed

theorem first_fifty_of_sixty_hazards_witness:
  "list_all (event_valid sample_env) sixty_events
   \<and> distinct (map (event_cell sample_env) sixty_events)
   \<and> length sixty_events = 60
   \<and> (\<exists>ms. createUnifiedMarkerData sample_env (map Some sixty_events) [] = Inr ms
          \<and> length ms = 50
          \<and> map data ms = map Event (take 50 sixty_events)
          \<and> map priority ms = replicate 50 10)"
proof -
  have h1: "list_all (event_valid sample_env) sixty_events" by code_simp
  have h2: "distinct (map (event_cell sample_env) sixty_events)" by code_simp
  have h3: "length sixty_events = 60" by code_simp
  show ?thesis
    using h1 h2 h3 first_fifty_of_sixty_hazards [OF h1 [unfolded list_all_iff] h2 h3]
    by simp
qed

text \<open>
  C3 as stated fails: of the sixty sample events the call keeps the first fifty, which
  are not the last fifty.
\<close>

theorem last_fifty_counterexample:
  "length sixty_events = 60
   \<and> map_sum id (map data) (createUnifiedMarkerData sample_env (map Some sixty_events) [])
       = Inr (map Event (take 50 sixty_events))
   \<and> map Event (take 50 sixty_events) \<noteq> map Event (drop 10 sixty_events)"
  by code_simp

text \<open>The keys of the map are the cells in order of first occupation.\<close>

lemma Map_has_cell_keys: "Map_has g k \<longleftrightarrow> Inr k \<in> set (cell_keys g)"
  by (auto simp: Map_has_iff cell_keys_def)

lemma cell_keys_Map_set:
  "cell_keys (Map_set g k v) = (if Map_has g k then cell_keys g else cell_keys g @ [Inr k])"
proof -
  have "cell_keys (Map_set g k v) = map Inr (map fst (Map_set g k v))"
    by (simp add: cell_keys_def)
  also have "\<dots> = (if Map_has g k then map Inr (map fst g) else map Inr (map fst g @ [k]))"
    by (simp only: keys_Map_set Map_has_iff if_distrib [of "map Inr"])
  finally show ?thesis by (simp add: cell_keys_def)
qed

lemma keys_occupy:
  "cell_keys (if Map_has g k then g else Map_set g k v) = occupy (cell_keys g) (Inr k)"
  by (simp add: occupy_def Map_has_cell_keys [symmetric] cell_keys_Map_set)

lemma keys_process_hazard_event:
  assumes "process_hazard_event env g (Some e) = Inr g'"
  shows "cell_keys g'
     = (if event_valid env e then occupy (cell_keys g) (event_cell env e) else cell_keys g)"
proof -
  from assms obtain la lo where p: "event_position env e = Inr (la, lo)"
    by (auto elim: process_hazard_event_InrD)
  show ?thesis
  proof (cases "invalid_coordinates la lo")
    case True
    then have "\<not> event_valid env e" by (simp add: event_valid_def valid_position_def p)
    with assms process_hazard_event_invalid [OF p True, of g] show ?thesis by simp
  next
    case False
    then have v: "event_valid env e" by (simp add: event_valid_def valid_position_def p)
    obtain k where k: "event_cell env e = Inr k"
      using cell_of_position_Inr [of env la lo] by (auto simp: event_cell_def p)
    from assms have "g' = (if Map_has g k then g else Map_set g k (hazard_event_marker la lo e))"
      by (simp add: process_hazard_event_valid [OF p False k])
    then show ?thesis using v k keys_occupy [of g k] by simp
  qed
qed

lemma keys_process_user_report:
  assumes "process_user_report env g (Some r) = Inr g'"
  shows "cell_keys g'
     = (if report_valid env r then occupy (cell_keys g) (report_cell env r) else cell_keys g)"
proof -
  from assms obtain la lo where p: "report_position env r = Inr (la, lo)"
    by (auto elim: process_user_report_InrD)
  show ?thesis
  proof (cases "invalid_coordinates la lo")
    case True
    then have "\<not> report_valid env r" by (simp add: report_valid_def valid_position_def p)
    with assms process_user_report_invalid [OF p True, of g] show ?thesis by simp
  next
    case False
    then have v: "report_valid env r" by (simp add: report_valid_def valid_position_def p)
    obtain k where k: "report_cell env r = Inr k"
      using cell_of_position_Inr [of env la lo] by (auto simp: report_cell_def p)
    note step = process_user_report_valid [OF p False k, of g]
    show ?thesis
    proof (cases "Map_has g k")
      case has: True
      with assms step have "cell_keys g' = cell_keys g"
        by (auto simp: cell_keys_Map_set split: if_splits)
      moreover have "occupy (cell_keys g) (Inr k) = cell_keys g"
        using has by (simp add: occupy_def Map_has_cell_keys)
      ultimately show ?thesis using v k by simp
    next
      case False
      with assms step have "g' = Map_set g k (user_report_marker la lo r)" by simp
      then show ?thesis using v k False keys_occupy [of g k] by simp
    qed
  qed
qed

lemma keys_forEach_hazard:
  assumes "forEach (process_hazard_event env) hs g = Inr g'"
  shows "cell_keys g'
     = foldl occupy (cell_keys g)
         (map (event_cell env) (filter (event_valid env) (objects hs)))"
  using assms
proof (induction hs arbitrary: g)
  case Nil
  then show ?case by simp
next
  case (Cons x hs)
  from Cons.prems obtain g1 where s: "process_hazard_event env g x = Inr g1"
    and rest: "forEach (process_hazard_event env) hs g1 = Inr g'"
    by (auto split: sum.splits)
  from s obtain e where x: "x = Some e" by (auto elim: process_hazard_event_InrD)
  from Cons.IH [OF rest] keys_process_hazard_event [OF s [unfolded x]]
  show ?case by (simp add: x)
qed

lemma keys_forEach_report:
  assumes "forEach (process_user_report env) rs g = Inr g'"
  shows "cell_keys g'
     = foldl occupy (cell_keys g)
         (map (report_cell env) (filter (report_valid env) (objects rs)))"
  using assms
proof (induction rs arbitrary: g)
  case Nil
  then show ?case by simp
next
  case (Cons x rs)
  from Cons.prems obtain g1 where s: "process_user_report env g x = Inr g1"
    and rest: "forEach (process_user_report env) rs g1 = Inr g'"
    by (auto split: sum.splits)
  from s obtain r where x: "x = Some r" by (auto elim: process_user_report_InrD)
  from Cons.IH [OF rest] keys_process_user_report [OF s [unfolded x]]
  show ?case by (simp add: x)
qed

lemma keys_final_groups:
  assumes "final_groups env hs rs = Inr g"
  shows "cell_keys g = cells_in_order env hs rs"
proof -
  from assms obtain g1 where g1: "forEach (process_hazard_event env) hs [] = Inr g1"
    and g: "forEach (process_user_report env) rs g1 = Inr g"
    by (auto simp: final_groups_def split: sum.splits)
  have "cell_keys [] = []" by (simp add: cell_keys_def)
  with keys_forEach_hazard [OF g1] keys_forEach_report [OF g] show ?thesis
    by (simp add: cells_in_order_def)
qed

lemma cells_of_values:
  assumes "final_groups env hs rs = Inr g"
  shows "map (marker_cell env) (Map_values g) = cells_in_order env hs rs"
  using marker_cell_values [OF groups_ok_final [OF assms]] keys_final_groups [OF assms]
  by (simp add: cell_keys_def)

text \<open>
  C6, as the code has it. The returned list is sorted by non-increasing priority, and
  markers of equal priority stand in the order in which their grid cells were first
  occupied (valid hazard events first, then valid user reports, in input order). A
  report marker that replaced the occupant of a cell stands at that cell's place, not
  at the place of the report in the input.
\<close>

theorem sorted_by_priority_in_cell_order:
  assumes "list_all (event_readable env) hs" and "list_all (report_readable env) rs"
  shows "\<exists>ms. createUnifiedMarkerData env hs rs = Inr ms
        \<and> sorted_wrt (\<lambda>a b. priority b \<le> priority a) ms
        \<and> (\<forall>p. subseq (map (marker_cell env) (filter (\<lambda>m. priority m = p) ms))
                  (cells_in_order env hs rs))"
proof -
  from assms obtain ms0 where "createUnifiedMarkerData env hs rs = Inr ms0"
    by (rule unified_returns)
  then obtain g where g: "final_groups env hs rs = Inr g"
    by (rule unified_groups)
  let ?vs = "Map_values g"
  let ?f = "\<lambda>m. - priority m"
  let ?ms = "take 50 (sort_key ?f ?vs)"
  have r: "createUnifiedMarkerData env hs rs = Inr ?ms"
    by (simp add: createUnifiedMarkerData_eq g sort_by_priority_def)
  have "sorted (map ?f (sort_key ?f ?vs))" by (rule sorted_sort_key)
  then have "sorted (take 50 (map ?f (sort_key ?f ?vs)))" by (rule sorted_wrt_take)
  then have "sorted (map ?f ?ms)" by (simp add: take_map)
  then have s: "sorted_wrt (\<lambda>a b. priority b \<le> priority a) ?ms"
    by (simp add: sorted_map)
  have o: "subseq (map (marker_cell env) (filter (\<lambda>m. priority m = p) ?ms))
             (cells_in_order env hs rs)" for p
  proof -
    have "subseq ?ms (sort_key ?f ?vs)"
      by (rule prefix_imp_subseq) (rule take_is_prefix)
    then have "subseq (filter (\<lambda>m. ?f m = - p) ?ms) (filter (\<lambda>m. ?f m = - p) (sort_key ?f ?vs))"
      by (rule subseq_filter)
    then have "subseq (filter (\<lambda>m. ?f m = - p) ?ms) (filter (\<lambda>m. ?f m = - p) ?vs)"
      by (simp only: sort_key_stable)
    moreover have "subseq (filter (\<lambda>m. ?f m = - p) ?vs) ?vs" by simp
    ultimately have "subseq (filter (\<lambda>m. ?f m = - p) ?ms) ?vs"
      by (rule subseq_order.trans)
    then have "subseq (map (marker_cell env) (filter (\<lambda>m. ?f m = - p) ?ms))
                 (map (marker_cell env) ?vs)"
      by (rule subseq_map)
    then show ?thesis by (simp add: cells_of_values [OF g])
  qed
  from r s o show ?thesis by blast
qed

theorem sorted_by_priority_in_cell_order_witness:
  "list_all (event_readable sample_env) [Some chennai_event, Some madurai_event]
   \<and> list_all (report_readable sample_env) [Some unscored_report, Some madurai_report]
   \<and> createUnifiedMarkerData sample_env [Some chennai_event, Some madurai_event]
       [Some unscored_report, Some madurai_report]
     = Inr [hazard_event_marker (Fin (105 / 8)) (Fin (321 / 4)) chennai_event,
            recent_submission_marker madurai_report,
            user_report_marker (Fin (23 / 2)) (Fin (321 / 4)) unscored_report]
   \<and> cells_in_order sample_env [Some chennai_event, Some madurai_event]
       [Some unscored_report, Some madurai_report]
       = [Inr ''13.125_80.250'', Inr ''9.875_78.125'', Inr ''11.500_80.250'']
   \<and> (\<exists>ms. createUnifiedMarkerData sample_env [Some chennai_event, Some madurai_event]
              [Some unscored_report, Some madurai_report] = Inr ms
          \<and> sorted_wrt (\<lambda>a b. priority b \<le> priority a) ms
          \<and> (\<forall>p. subseq (map (marker_cell sample_env) (filter (\<lambda>m. priority m = p) ms))
                    (cells_in_order sample_env [Some chennai_event, Some madurai_event]
                       [Some unscored_report, Some madurai_report])))"
proof -
  have h0: "list_all (event_readable sample_env) [Some chennai_event, Some madurai_event]"
    by code_simp
  have h0': "list_all (report_readable sample_env) [Some unscored_report, Some madurai_report]"
    by code_simp
  have h1: "createUnifiedMarkerData sample_env [Some chennai_event, Some madurai_event]
       [Some unscored_report, Some madurai_report]
     = Inr [hazard_event_marker (Fin (105 / 8)) (Fin (321 / 4)) chennai_event,
            recent_submission_marker madurai_report,
            user_report_marker (Fin (23 / 2)) (Fin (321 / 4)) unscored_report]"
    by code_simp
  have h2: "cells_in_order sample_env [Some chennai_event, Some madurai_event]
              [Some unscored_report, Some madurai_report]
       = [Inr ''13.125_80.250'', Inr ''9.875_78.125'', Inr ''11.500_80.250'']"
    by code_simp
  show ?thesis
    using h0 h0' h1 h2 sorted_by_priority_in_cell_order [OF h0 h0']
    by simp
qed

text \<open>
  C6 as stated fails: two own reports, each recent and each in the cell of a hazard
  event, come out with equal priority 9 in the order of the hazard events' cells,
  which here is the reverse of the order of the reports in the input.
\<close>

theorem report_input_order_counterexample:
  "map_sum id (map data)
     (createUnifiedMarkerData sample_env [Some chennai_event, Some madurai_event]
        [Some madurai_report, Some own_report_now])
     = Inr [Report own_report_now, Report madurai_report]
   \<and> map_sum id (map priority)
       (createUnifiedMarkerData sample_env [Some chennai_event, Some madurai_event]
          [Some madurai_report, Some own_report_now])
     = Inr [9, 9]"
  by code_simp

text \<open>
  The printed digits determine the rounded magnitude, so two keys are equal exactly
  when the coordinates round to the same value and agree in being negative.
\<close>

lemma digit_val_digit_char: "0 \<le> d \<Longrightarrow> d < 10 \<Longrightarrow> digit_val (digit_char d) = d"
proof -
  assume "0 \<le> d" "d < 10"
  then have "d = 0 \<or> d = 1 \<or> d = 2 \<or> d = 3 \<or> d = 4 \<or> d = 5 \<or> d = 6 \<or> d = 7 \<or> d = 8 \<or> d = 9"
    by presburger
  then show ?thesis
    by (elim disjE) (simp_all add: digit_char_def digit_val_def)
qed

lemma digit_char_is_digit: "0 \<le> d \<Longrightarrow> d < 10 \<Longrightarrow> is_digit (digit_char d)"
proof -
  assume "0 \<le> d" "d < 10"
  then have "d = 0 \<or> d = 1 \<or> d = 2 \<or> d = 3 \<or> d = 4 \<or> d = 5 \<or> d = 6 \<or> d = 7 \<or> d = 8 \<or> d = 9"
    by presburger
  then show ?thesis
    by (elim disjE) (simp_all add: digit_char_def is_digit_def)
qed

lemma digits_val_snoc: "digits_val (xs @ [c]) = 10 * digits_val xs + digit_val c"
  by (simp add: digits_val_def)

lemma digits_val_digits_of: "0 \<le> n \<Longrightarrow> digits_val (digits_of n) = n"
proof (induction n rule: digits_of.induct)
  case (1 n)
  show ?case
  proof (cases "n < 10")
    case True
    with "1.prems" show ?thesis
      using digits_val_snoc [of "[]" "digit_char n"]
      by (simp add: digits_of.simps [of n] digit_val_digit_char digits_val_def)
  next
    case False
    then have "digits_val (digits_of (n div 10)) = n div 10"
      using "1.IH" "1.prems" by simp
    moreover have "digit_val (digit_char (n mod 10)) = n mod 10"
      by (rule digit_val_digit_char) simp_all
    ultimately show ?thesis
      using False by (simp add: digits_of.simps [of n] digits_val_snoc)
  qed
qed

lemma digits_of_all_digits: "0 \<le> n \<Longrightarrow> \<forall>c \<in> set (digits_of n). is_digit c"
proof (induction n rule: digits_of.induct)
  case (1 n)
  show ?case
  proof (cases "n < 10")
    case True
    with "1.prems" show ?thesis
      by (simp add: digits_of.simps [of n] digit_char_is_digit)
  next
    case False
    then have "\<forall>c \<in> set (digits_of (n div 10)). is_digit c"
      using "1.IH" "1.prems" by simp
    moreover have "is_digit (digit_char (n mod 10))"
      by (rule digit_char_is_digit) simp_all
    ultimately show ?thesis
      using False by (simp add: digits_of.simps [of n])
  qed
qed

lemma digits_val_zeros: "digits_val (replicate k CHR ''0'' @ xs) = digits_val xs"
proof (induction k)
  case 0
  then show ?case by simp
next
  case (Suc k)
  have "digits_val (CHR ''0'' # ys) = digits_val ys" for ys
    by (simp add: digits_val_def digit_val_def)
  then show ?case using Suc by simp
qed

lemma scaled_nonneg: "0 \<le> a \<Longrightarrow> 0 \<le> scaled a f"
  by (simp add: scaled_def)

lemma fixed_digits_padded:
  "fixed_digits a f =
     (if f = 0 then digits_of (scaled a f)
      else take (length (padded (scaled a f) f) - f) (padded (scaled a f) f) @ ''.''
           @ drop (length (padded (scaled a f) f) - f) (padded (scaled a f) f))"
  by (simp add: fixed_digits_def Let_def scaled_def padded_def)

lemma length_padded: "f < length (padded n f)"
  by (simp add: padded_def)

lemma digits_val_padded: "0 \<le> n \<Longrightarrow> digits_val (padded n f) = n"
  by (simp add: padded_def digits_val_zeros digits_val_digits_of)

lemma padded_all_digits: "0 \<le> n \<Longrightarrow> \<forall>c \<in> set (padded n f). is_digit c"
  using digits_of_all_digits [of n] by (auto simp: padded_def is_digit_def)
lemma unfix_fixed_digits:
  "unfix f (fixed_digits a f) = (if f = 0 then digits_of (scaled a f) else padded (scaled a f) f)"
proof (cases "f = 0")
  case True
  then show ?thesis by (simp add: unfix_def fixed_digits_padded)
next
  case False
  let ?p = "padded (scaled a f) f"
  have len: "f < length ?p" by (rule length_padded)
  obtain A B where AB: "A = take (length ?p - f) ?p" "B = drop (length ?p - f) ?p" by blast
  have lB: "length B = f" using len AB by simp
  have p: "A @ B = ?p" using AB by simp
  have s: "fixed_digits a f = A @ CHR ''.'' # B" using False AB by (simp add: fixed_digits_padded)
  have "unfix f (A @ CHR ''.'' # B) = A @ B"
    using False lB by (simp add: unfix_def)
  then show ?thesis using False s p by simp
qed
lemma digits_val_unfix:
  "0 \<le> a \<Longrightarrow> digits_val (unfix f (fixed_digits a f)) = scaled a f"
  by (simp add: unfix_fixed_digits digits_val_padded digits_val_digits_of scaled_nonneg)

lemma fixed_digits_eq_iff:
  assumes "0 \<le> a" and "0 \<le> b"
  shows "fixed_digits a f = fixed_digits b f \<longleftrightarrow> scaled a f = scaled b f"
proof
  assume "fixed_digits a f = fixed_digits b f"
  then have "digits_val (unfix f (fixed_digits a f)) = digits_val (unfix f (fixed_digits b f))"
    by simp
  then show "scaled a f = scaled b f" using assms by (simp add: digits_val_unfix)
next
  assume e: "scaled a f = scaled b f"
  show "fixed_digits a f = fixed_digits b f"
    by (simp only: fixed_digits_padded e)
qed

lemma fixed_digits_chars:
  assumes "0 \<le> a"
  shows "set (fixed_digits a f) \<subseteq> insert CHR ''.'' (Collect is_digit)"
proof -
  have n: "0 \<le> scaled a f" by (rule scaled_nonneg [OF assms])
  have p: "set (padded (scaled a f) f) \<subseteq> Collect is_digit"
    using padded_all_digits [OF n] by blast
  have q: "set (digits_of (scaled a f)) \<subseteq> Collect is_digit"
    using digits_of_all_digits [OF n] by blast
  show ?thesis
  proof (cases "f = 0")
    case True
    then have "fixed_digits a f = digits_of (scaled a f)"
      by (simp add: fixed_digits_padded)
    then show ?thesis using q by auto
  next
    case False
    let ?p = "padded (scaled a f) f"
    have t: "set (take (length ?p - f) ?p) \<subseteq> Collect is_digit"
      using set_take_subset [of "length ?p - f" ?p] p by blast
    have d: "set (drop (length ?p - f) ?p) \<subseteq> Collect is_digit"
      using set_drop_subset [of "length ?p - f" ?p] p by blast
    have "fixed_digits a f = take (length ?p - f) ?p @ CHR ''.'' # drop (length ?p - f) ?p"
      using False by (simp add: fixed_digits_padded)
    then show ?thesis using t d by auto
  qed
qed

lemma fixed_digits_no_sign:
  assumes "0 \<le> a"
  shows "CHR ''-'' \<notin> set (fixed_digits a f)" and "CHR ''_'' \<notin> set (fixed_digits a f)"
proof -
  have "CHR ''-'' \<notin> insert CHR ''.'' (Collect is_digit)" by (simp add: is_digit_def)
  then show "CHR ''-'' \<notin> set (fixed_digits a f)" using fixed_digits_chars [OF assms] by blast
  have "CHR ''_'' \<notin> insert CHR ''.'' (Collect is_digit)" by (simp add: is_digit_def)
  then show "CHR ''_'' \<notin> set (fixed_digits a f)" using fixed_digits_chars [OF assms] by blast
qed
lemma toFixed_finite:
  assumes "0 \<le> f" and "f \<le> 100" and "\<bar>x\<bar> < 10 ^ 21"
  shows "toFixed env (JNum (Fin x)) f
           = Inr ((if x < 0 then ''-'' else []) @ fixed_digits \<bar>x\<bar> (nat f))"
  using assms by (simp add: toFixed_def Let_def)

lemma toFixed_no_underscore:
  assumes "0 \<le> f" and "f \<le> 100" and "\<bar>x\<bar> < 10 ^ 21"
    and "toFixed env (JNum (Fin x)) f = Inr s"
  shows "CHR ''_'' \<notin> set s"
  using assms fixed_digits_no_sign(2) [of "\<bar>x\<bar>" "nat f"]
  by (auto simp: toFixed_finite split: if_splits)

lemma toFixed_eq_iff:
  assumes "0 \<le> f" and "f \<le> 100" and "\<bar>x\<bar> < 10 ^ 21" and "\<bar>y\<bar> < 10 ^ 21"
  shows "toFixed env (JNum (Fin x)) f = toFixed env (JNum (Fin y)) f
           \<longleftrightarrow> (x < 0 \<longleftrightarrow> y < 0) \<and> scaled \<bar>x\<bar> (nat f) = scaled \<bar>y\<bar> (nat f)"
proof -
  have nx: "CHR ''-'' \<notin> set (fixed_digits \<bar>x\<bar> (nat f))"
    by (rule fixed_digits_no_sign) simp
  have ny: "CHR ''-'' \<notin> set (fixed_digits \<bar>y\<bar> (nat f))"
    by (rule fixed_digits_no_sign) simp
  have e: "fixed_digits \<bar>x\<bar> (nat f) = fixed_digits \<bar>y\<bar> (nat f)
             \<longleftrightarrow> scaled \<bar>x\<bar> (nat f) = scaled \<bar>y\<bar> (nat f)"
    by (rule fixed_digits_eq_iff) simp_all
  have m1: "CHR ''-'' # fixed_digits \<bar>x\<bar> (nat f) \<noteq> fixed_digits \<bar>y\<bar> (nat f)"
    using ny by (metis list.set_intros(1))
  have m2: "fixed_digits \<bar>x\<bar> (nat f) \<noteq> CHR ''-'' # fixed_digits \<bar>y\<bar> (nat f)"
    using nx by (metis list.set_intros(1))
  have tx: "toFixed env (JNum (Fin x)) f
              = Inr ((if x < 0 then ''-'' else []) @ fixed_digits \<bar>x\<bar> (nat f))"
    using assms by (intro toFixed_finite)
  have ty: "toFixed env (JNum (Fin y)) f
              = Inr ((if y < 0 then ''-'' else []) @ fixed_digits \<bar>y\<bar> (nat f))"
    using assms by (intro toFixed_finite)
  show ?thesis
    using e m1 m2 by (auto simp: tx ty)
qed

lemma join_eq_iff:
  assumes "c \<notin> set a1" and "c \<notin> set a2"
  shows "a1 @ c # b1 = a2 @ c # b2 \<longleftrightarrow> a1 = a2 \<and> b1 = b2"
  using assms
proof (induction a1 arbitrary: a2)
  case Nil
  then show ?case by (cases a2) auto
next
  case (Cons x a1)
  then show ?case by (cases a2) auto
qed

lemma rounded_eq_iff:
  assumes "x < 0 \<longleftrightarrow> y < 0"
  shows "rounded f x = rounded f y \<longleftrightarrow> scaled \<bar>x\<bar> f = scaled \<bar>y\<bar> f"
proof -
  have "\<lfloor>(1 / 2 :: rat)\<rfloor> = 0" by (rule floor_unique) simp_all
  then have z: "scaled 0 f = 0" by (simp add: scaled_def)
  have r: "rounded f u = (if u < 0 then - of_int (scaled \<bar>u\<bar> f) else of_int (scaled \<bar>u\<bar> f)) / 10 ^ f"
    for u :: rat
  proof (cases "u = 0")
    case True
    then show ?thesis by (simp add: rounded_def z)
  next
    case False
    then show ?thesis by (auto simp: rounded_def scaled_def sgn_if)
  qed
  show ?thesis using assms by (auto simp: r)
qed

lemma getCoordinateKey_eq_iff:
  assumes "0 \<le> precision" and "precision \<le> 100"
    and "\<bar>lat1\<bar> < 10 ^ 21" and "\<bar>lon1\<bar> < 10 ^ 21"
    and "\<bar>lat2\<bar> < 10 ^ 21" and "\<bar>lon2\<bar> < 10 ^ 21"
  shows "getCoordinateKey env (JNum (Fin lat1)) (JNum (Fin lon1)) precision
           = getCoordinateKey env (JNum (Fin lat2)) (JNum (Fin lon2)) precision
         \<longleftrightarrow> rounded (nat precision) lat1 = rounded (nat precision) lat2
             \<and> (lat1 < 0 \<longleftrightarrow> lat2 < 0)
             \<and> rounded (nat precision) lon1 = rounded (nat precision) lon2
             \<and> (lon1 < 0 \<longleftrightarrow> lon2 < 0)"
proof -
  obtain a1 where a1: "toFixed env (JNum (Fin lat1)) precision = Inr a1"
    using toFixed_number [OF assms(1,2)] by blast
  obtain a2 where a2: "toFixed env (JNum (Fin lat2)) precision = Inr a2"
    using toFixed_number [OF assms(1,2)] by blast
  obtain b1 where b1: "toFixed env (JNum (Fin lon1)) precision = Inr b1"
    using toFixed_number [OF assms(1,2)] by blast
  obtain b2 where b2: "toFixed env (JNum (Fin lon2)) precision = Inr b2"
    using toFixed_number [OF assms(1,2)] by blast
  have u1: "CHR ''_'' \<notin> set a1" by (rule toFixed_no_underscore [OF assms(1,2,3) a1])
  have u2: "CHR ''_'' \<notin> set a2" by (rule toFixed_no_underscore [OF assms(1,2,5) a2])
  have "getCoordinateKey env (JNum (Fin lat1)) (JNum (Fin lon1)) precision
           = getCoordinateKey env (JNum (Fin lat2)) (JNum (Fin lon2)) precision
        \<longleftrightarrow> a1 = a2 \<and> b1 = b2"
    using join_eq_iff [OF u1 u2, of b1 b2] by (simp add: getCoordinateKey_def a1 a2 b1 b2)
  also have "a1 = a2 \<longleftrightarrow> (lat1 < 0 \<longleftrightarrow> lat2 < 0)
                 \<and> scaled \<bar>lat1\<bar> (nat precision) = scaled \<bar>lat2\<bar> (nat precision)"
    using toFixed_eq_iff [OF assms(1,2,3,5), of env] by (simp add: a1 a2)
  also have "b1 = b2 \<longleftrightarrow> (lon1 < 0 \<longleftrightarrow> lon2 < 0)
                 \<and> scaled \<bar>lon1\<bar> (nat precision) = scaled \<bar>lon2\<bar> (nat precision)"
    using toFixed_eq_iff [OF assms(1,2,4,6), of env] by (simp add: b1 b2)
  finally show ?thesis
    using rounded_eq_iff [of lat1 lat2 "nat precision"] rounded_eq_iff [of lon1 lon2 "nat precision"]
    by blast
qed

text \<open>
  C7 at the failing input. The latitudes \<open>1/8192\<close> and \<open>-1/8192\<close> (both exact
  doubles, both accepted by the guard) round to the same value 0 at three decimals, yet
  \<open>toFixed\<close> prints them as \<open>0.000\<close> and \<open>-0.000\<close>: the keys differ, and two
  hazard events at these latitudes and the same longitude give two markers.
\<close>

theorem negative_zero_splits_the_cell:
  "rounded 3 (1 / 8192) = rounded 3 (- 1 / 8192)
   \<and> getCoordinateKey sample_env (JNum (Fin (1 / 8192))) (JNum (Fin (321 / 4))) 3
       = Inr ''0.000_80.250''
   \<and> getCoordinateKey sample_env (JNum (Fin (- 1 / 8192))) (JNum (Fin (321 / 4))) 3
       = Inr ''-0.000_80.250''
   \<and> map_sum id (map data)
        (createUnifiedMarkerData sample_env [Some north_of_equator, Some south_of_equator] [])
       = Inr [Event north_of_equator, Event south_of_equator]"
proof -
  have "rounded 3 (1 / 8192) = rounded 3 (- 1 / 8192)" by code_simp
  moreover have "getCoordinateKey sample_env (JNum (Fin (1 / 8192))) (JNum (Fin (321 / 4))) 3
       = Inr ''0.000_80.250''" by code_simp
  moreover have "getCoordinateKey sample_env (JNum (Fin (- 1 / 8192))) (JNum (Fin (321 / 4))) 3
       = Inr ''-0.000_80.250''" by code_simp
  moreover have "map_sum id (map data)
        (createUnifiedMarkerData sample_env [Some north_of_equator, Some south_of_equator] [])
       = Inr [Event north_of_equator, Event south_of_equator]" by code_simp
  ultimately show ?thesis by simp
qed





end
